theory Spec2Isabelle
  imports Complex_Main
begin

section \<open>The platform: ECMAScript numbers and Date objects\<close>

text \<open>
  The components are TypeScript/Vue code over the ECMAScript \<open>Date\<close> object. A Date holds
  a time value: a number of milliseconds since the epoch, or NaN (an Invalid Date). A time
  value is modelled as \<open>Some t\<close> with \<open>t\<close> an integer, and NaN as \<open>None\<close>; the numbers the
  getters return are modelled the same way. The abstract operations below are the ones of
  the ECMAScript specification (Day, DayFromYear, YearFromTime, MonthFromTime, DateFromTime,
  WeekDay, MakeDay, MakeTime, MakeDate, TimeClip), with their names.

  Dates are timezone-naive: the local time zone adjustment is 0, so local time and UTC
  coincide and there is no daylight saving shift.
\<close>

type_synonym Number = "int option"
type_synonym Date = "int option"

definition msPerDay :: int where
  "msPerDay = 86400000"

definition Day :: "int \<Rightarrow> int" where
  "Day t = t div msPerDay"

definition TimeWithinDay :: "int \<Rightarrow> int" where
  "TimeWithinDay t = t mod msPerDay"

definition DayFromYear :: "int \<Rightarrow> int" where
  "DayFromYear y =
     365 * (y - 1970) + (y - 1969) div 4 - (y - 1901) div 100 + (y - 1601) div 400"

definition DaysInYear :: "int \<Rightarrow> int" where
  "DaysInYear y =
     (if y mod 4 \<noteq> 0 then 365 else if y mod 100 \<noteq> 0 then 366
      else if y mod 400 \<noteq> 0 then 365 else 366)"

text \<open>
  \<open>YearFromTime t\<close> is the largest year \<open>y\<close> with \<open>DayFromYear y \<le> Day t\<close>. It is computed
  from an estimate (the mean Gregorian year has 146097 / 400 days) that is at most one
  year off; lemma \<open>YearFromDay_bounds\<close> shows that the result is that year.
\<close>

definition YearFromDay :: "int \<Rightarrow> int" where
  "YearFromDay d =
     (let y = 1970 + (400 * d) div 146097
      in if d < DayFromYear y then y - 1
         else if DayFromYear (y + 1) \<le> d then y + 1
         else y)"

definition YearFromTime :: "int \<Rightarrow> int" where
  "YearFromTime t = YearFromDay (Day t)"

definition InLeapYear :: "int \<Rightarrow> int" where
  "InLeapYear t = (if DaysInYear (YearFromTime t) = 366 then 1 else 0)"

definition DayWithinYear :: "int \<Rightarrow> int" where
  "DayWithinYear t = Day t - DayFromYear (YearFromTime t)"

definition MonthFromTime :: "int \<Rightarrow> int" where
  "MonthFromTime t =
     (let d = DayWithinYear t; l = InLeapYear t
      in if d < 31 then 0
         else if d < 59 + l then 1
         else if d < 90 + l then 2
         else if d < 120 + l then 3
         else if d < 151 + l then 4
         else if d < 181 + l then 5
         else if d < 212 + l then 6
         else if d < 243 + l then 7
         else if d < 273 + l then 8
         else if d < 304 + l then 9
         else if d < 334 + l then 10
         else 11)"

definition DateFromTime :: "int \<Rightarrow> int" where
  "DateFromTime t =
     (let d = DayWithinYear t; l = InLeapYear t; m = MonthFromTime t
      in if m = 0 then d + 1
         else if m = 1 then d - 30
         else if m = 2 then d - 58 - l
         else if m = 3 then d - 89 - l
         else if m = 4 then d - 119 - l
         else if m = 5 then d - 150 - l
         else if m = 6 then d - 180 - l
         else if m = 7 then d - 211 - l
         else if m = 8 then d - 242 - l
         else if m = 9 then d - 272 - l
         else if m = 10 then d - 303 - l
         else d - 333 - l)"

definition WeekDay :: "int \<Rightarrow> int" where
  "WeekDay t = (Day t + 4) mod 7"

definition HourFromTime :: "int \<Rightarrow> int" where
  "HourFromTime t = (t div 3600000) mod 24"

definition MinFromTime :: "int \<Rightarrow> int" where
  "MinFromTime t = (t div 60000) mod 60"

definition SecFromTime :: "int \<Rightarrow> int" where
  "SecFromTime t = (t div 1000) mod 60"

text \<open>
  \<open>MakeDay year month date\<close>: the day number of the first day of month
  \<open>month mod 12\<close> of year \<open>year + month div 12\<close>, plus \<open>date - 1\<close>.
\<close>

definition monthStart :: "int \<Rightarrow> int \<Rightarrow> int" where
  "monthStart mn l =
     (if mn = 0 then 0
      else if mn = 1 then 31
      else if mn = 2 then 59 + l
      else if mn = 3 then 90 + l
      else if mn = 4 then 120 + l
      else if mn = 5 then 151 + l
      else if mn = 6 then 181 + l
      else if mn = 7 then 212 + l
      else if mn = 8 then 243 + l
      else if mn = 9 then 273 + l
      else if mn = 10 then 304 + l
      else 334 + l)"

definition MakeDay :: "int \<Rightarrow> int \<Rightarrow> int \<Rightarrow> int" where
  "MakeDay year month date =
     (let ym = year + month div 12; mn = month mod 12
      in DayFromYear ym + monthStart mn (if DaysInYear ym = 366 then 1 else 0) + date - 1)"

definition MakeTime :: "int \<Rightarrow> int \<Rightarrow> int \<Rightarrow> int \<Rightarrow> int" where
  "MakeTime hour minute sec ms = hour * 3600000 + minute * 60000 + sec * 1000 + ms"

definition MakeDate :: "int \<Rightarrow> int \<Rightarrow> int" where
  "MakeDate day time = day * msPerDay + time"

text \<open>TimeClip: a time value beyond 8.64e15 ms from the epoch is NaN.\<close>

definition TimeClip :: "int \<Rightarrow> Date" where
  "TimeClip t = (if \<bar>t\<bar> \<le> 8640000000000000 then Some t else None)"

text \<open>
  The constructor \<open>new Date(year, month, date, hours, minutes, seconds, ms)\<close>. An argument
  that is NaN gives an Invalid Date, and a year from 0 to 99 stands for 1900 + year.
\<close>

definition new_Date :: "Number \<Rightarrow> Number \<Rightarrow> Number \<Rightarrow> Number \<Rightarrow> Number \<Rightarrow> Number \<Rightarrow> Number \<Rightarrow> Date" where
  "new_Date year month date hours minutes seconds ms =
     (case (year, month, date, hours, minutes, seconds, ms) of
        (Some y, Some m, Some dt, Some h, Some mi, Some s, Some milli) \<Rightarrow>
          (let yr = (if 0 \<le> y \<and> y \<le> 99 then 1900 + y else y)
           in TimeClip (MakeDate (MakeDay yr m dt) (MakeTime h mi s milli)))
      | _ \<Rightarrow> None)"

text \<open>\<open>new Date(year, month, date)\<close>: the time of day defaults to 0.\<close>

definition new_Date3 :: "Number \<Rightarrow> Number \<Rightarrow> Number \<Rightarrow> Date" where
  "new_Date3 year month date = new_Date year month date (Some 0) (Some 0) (Some 0) (Some 0)"

text \<open>\<open>new Date(year, month, date, hours, minutes)\<close>.\<close>

definition new_Date5 :: "Number \<Rightarrow> Number \<Rightarrow> Number \<Rightarrow> Number \<Rightarrow> Number \<Rightarrow> Date" where
  "new_Date5 year month date hours minutes = new_Date year month date hours minutes (Some 0) (Some 0)"

text \<open>
  A Date object that is not an Invalid Date: its time value is a number, within the
  range of TimeClip.
\<close>

definition validDate :: "Date \<Rightarrow> bool" where
  "validDate d = (case d of None \<Rightarrow> False | Some t \<Rightarrow> \<bar>t\<bar> \<le> 8640000000000000)"

text \<open>\<open>new Date(d.getTime())\<close>: a copy of the time value.\<close>

definition copy_Date :: "Date \<Rightarrow> Date" where
  "copy_Date d = (case d of None \<Rightarrow> None | Some t \<Rightarrow> TimeClip t)"

definition getTime :: "Date \<Rightarrow> Number" where
  "getTime d = d"

definition getFullYear :: "Date \<Rightarrow> Number" where
  "getFullYear d = map_option YearFromTime d"

definition getMonth :: "Date \<Rightarrow> Number" where
  "getMonth d = map_option MonthFromTime d"

definition getDate :: "Date \<Rightarrow> Number" where
  "getDate d = map_option DateFromTime d"

definition getDay :: "Date \<Rightarrow> Number" where
  "getDay d = map_option WeekDay d"

definition getHours :: "Date \<Rightarrow> Number" where
  "getHours d = map_option HourFromTime d"

definition getMinutes :: "Date \<Rightarrow> Number" where
  "getMinutes d = map_option MinFromTime d"

definition getSeconds :: "Date \<Rightarrow> Number" where
  "getSeconds d = map_option SecFromTime d"

text \<open>\<open>d.setDate(dt)\<close>: the day of the month is replaced, month, year and time of day kept.\<close>

definition setDate :: "Date \<Rightarrow> Number \<Rightarrow> Date" where
  "setDate d dt =
     (case (d, dt) of
        (Some t, Some n) \<Rightarrow>
          TimeClip (MakeDate (MakeDay (YearFromTime t) (MonthFromTime t) n) (TimeWithinDay t))
      | _ \<Rightarrow> None)"

text \<open>\<open>d.setHours(h, m, s, ms)\<close>: the time of day is replaced, the day kept.\<close>

definition setHours :: "Date \<Rightarrow> Number \<Rightarrow> Number \<Rightarrow> Number \<Rightarrow> Number \<Rightarrow> Date" where
  "setHours d h m s ms =
     (case (d, h, m, s, ms) of
        (Some t, Some h', Some m', Some s', Some ms') \<Rightarrow>
          TimeClip (MakeDate (Day t) (MakeTime h' m' s' ms'))
      | _ \<Rightarrow> None)"

text \<open>
  Comparisons and arithmetic on numbers. Every comparison with NaN is false, so
  \<open>===\<close> is false and \<open>!==\<close> is true when a side is NaN. Relational operators on Date
  objects compare their time values.
\<close>

definition js_lt :: "Number \<Rightarrow> Number \<Rightarrow> bool" where
  "js_lt a b = (case (a, b) of (Some x, Some y) \<Rightarrow> x < y | _ \<Rightarrow> False)"

definition js_gt :: "Number \<Rightarrow> Number \<Rightarrow> bool" where
  "js_gt a b = (case (a, b) of (Some x, Some y) \<Rightarrow> x > y | _ \<Rightarrow> False)"

definition js_le :: "Number \<Rightarrow> Number \<Rightarrow> bool" where
  "js_le a b = (case (a, b) of (Some x, Some y) \<Rightarrow> x \<le> y | _ \<Rightarrow> False)"

definition js_ge :: "Number \<Rightarrow> Number \<Rightarrow> bool" where
  "js_ge a b = (case (a, b) of (Some x, Some y) \<Rightarrow> x \<ge> y | _ \<Rightarrow> False)"

definition js_seq :: "Number \<Rightarrow> Number \<Rightarrow> bool" where
  "js_seq a b = (case (a, b) of (Some x, Some y) \<Rightarrow> x = y | _ \<Rightarrow> False)"

definition js_add :: "Number \<Rightarrow> Number \<Rightarrow> Number" where
  "js_add a b = (case (a, b) of (Some x, Some y) \<Rightarrow> Some (x + y) | _ \<Rightarrow> None)"

definition js_sub :: "Number \<Rightarrow> Number \<Rightarrow> Number" where
  "js_sub a b = (case (a, b) of (Some x, Some y) \<Rightarrow> Some (x - y) | _ \<Rightarrow> None)"

text \<open>The remainder operator \<open>%\<close> truncates: the result has the sign of the dividend.\<close>

definition js_rem :: "int \<Rightarrow> int \<Rightarrow> int" where
  "js_rem a b = sgn a * (\<bar>a\<bar> mod \<bar>b\<bar>)"

text \<open>
  \<open>Math.round(x / 864e5)\<close> for an integer \<open>x\<close>: the nearest integer, a tie going up.
  The quotient is a floating-point number; a tie \<open>k + 0.5\<close> is exact, and the quotient of
  another integer differs from it by at least 1 / 864e5, far more than the rounding error
  at the magnitudes a time value can have, so the integer formula gives the same result.
\<close>

definition round_days :: "int \<Rightarrow> int" where
  "round_days x = (x + 43200000) div 86400000"

section \<open>Calendar math of the date picker's table row\<close>

text \<open>
  \<open>firstWeekOffset\<close>, \<open>daysInYear\<close>, \<open>isLeapYear\<close>, \<open>getSetDayOfYear\<close>, \<open>weeksInYear\<close> and
  \<open>getWeekNumber\<close> of the table row component (the last one is defined below, after
  the props it reads). \<open>weeksInYear\<close> divides by 7 in floating point;
  the quotient is modelled as a rational number, which is exact whenever it is an integer
  and compares with an integer as the floating-point quotient does.
\<close>

definition firstWeekOffset :: "int \<Rightarrow> int \<Rightarrow> int \<Rightarrow> Number" where
  "firstWeekOffset year dow doy =
     (let fwd = 7 + dow - doy;
          firstJanuary = new_Date3 (Some year) (Some 0) (Some fwd)
      in case getDay firstJanuary of
           None \<Rightarrow> None
         | Some wd \<Rightarrow> (let fwdlw = js_rem (7 + wd - dow) 7 in Some (- fwdlw + fwd - 1)))"

definition isLeapYear :: "int \<Rightarrow> bool" where
  "isLeapYear year = ((js_rem year 4 = 0 \<and> js_rem year 100 \<noteq> 0) \<or> js_rem year 400 = 0)"

definition daysInYear :: "int \<Rightarrow> int" where
  "daysInYear year = (if isLeapYear year then 366 else 365)"

definition getSetDayOfYear :: "Date \<Rightarrow> Number" where
  "getSetDayOfYear input =
     (case js_sub (getTime input) (getTime (new_Date3 (getFullYear input) (Some 0) (Some 1))) of
        None \<Rightarrow> None
      | Some x \<Rightarrow> Some (round_days x + 1))"

definition weeksInYear :: "int \<Rightarrow> int \<Rightarrow> int \<Rightarrow> rat option" where
  "weeksInYear year dow doy =
     (case (firstWeekOffset year dow doy, firstWeekOffset (year + 1) dow doy) of
        (Some weekOffset, Some weekOffsetNext) \<Rightarrow>
          Some (of_int (daysInYear year - weekOffset + weekOffsetNext) / 7)
      | _ \<Rightarrow> None)"

section \<open>The table row of the date picker\<close>

text \<open>
  The props of the table row component that its methods read. A prop that is not passed
  is \<open>undefined\<close> (\<open>None\<close>, or \<open>Falsy\<close> for \<open>selectedDate\<close>, whose type is a Date or an Array).
  An event of the \<open>events\<close> prop carries its date.
\<close>

datatype DateArg = Falsy | OneDate Date | Dates "Date list"

record Event =
  date :: Date
  etype :: "string option"

record Props =
  selectedDate :: DateArg
  hoveredDateRange :: "Date list option"
  month :: int
  minDate :: "Date option"
  maxDate :: "Date option"
  disabled :: bool
  unselectableDates :: "Date list option"
  unselectableDaysOfWeek :: "int list option"
  selectableDates :: "Date list option"
  events :: "Event list option"
  dateCreator :: "unit \<Rightarrow> Date"
  nearbyMonthDays :: bool
  nearbySelectableMonthDays :: bool
  range_prop :: bool
  multiple :: bool
  rulesForFirstWeek :: int
  firstDayOfWeek :: int

text \<open>
  A table row that is passed only its month and the week configuration: every other prop
  is \<open>undefined\<close>, a Boolean prop \<open>false\<close>, and \<open>dateCreator\<close> returns \<open>now\<close>.
\<close>

definition rowProps :: "int \<Rightarrow> int \<Rightarrow> int \<Rightarrow> Date \<Rightarrow> Props" where
  "rowProps m dow doy now =
     \<lparr> selectedDate = Falsy, hoveredDateRange = None, month = m, minDate = None,
       maxDate = None, disabled = False, unselectableDates = None,
       unselectableDaysOfWeek = None, selectableDates = None, events = None,
       dateCreator = (\<lambda>_. now), nearbyMonthDays = False,
       nearbySelectableMonthDays = False, range_prop = False, multiple = False,
       rulesForFirstWeek = doy, firstDayOfWeek = dow \<rparr>"

text \<open>What a method emits to the parent component.\<close>

datatype Emit = Select Date | RangeHoverEndDate Date | ChangeFocus Date

text \<open>
  \<open>getWeekNumber\<close>: when \<open>week\<close> is NaN both tests are false and the result is \<open>week\<close>;
  when a \<open>weeksInYear\<close> is NaN the test against it is false, and a sum with it is NaN.
\<close>

definition getWeekNumber :: "Props \<Rightarrow> Date \<Rightarrow> rat option" where
  "getWeekNumber p mom =
     (let dow = firstDayOfWeek p; doy = rulesForFirstWeek p in
      case (getFullYear mom, getSetDayOfYear mom) of
        (Some year, Some dayOfYear) \<Rightarrow>
          (case firstWeekOffset year dow doy of
             None \<Rightarrow> None
           | Some weekOffset \<Rightarrow>
               (let week = (dayOfYear - weekOffset - 1) div 7 + 1
                in if week < 1 then
                     (case weeksInYear (year - 1) dow doy of
                        None \<Rightarrow> None
                      | Some w \<Rightarrow> Some (of_int week + w))
                   else
                     (case weeksInYear year dow doy of
                        None \<Rightarrow> Some (of_int week)
                      | Some w \<Rightarrow>
                          if of_int week > w then Some (of_int week - w)
                          else Some (of_int week))))
      | _ \<Rightarrow> None)"

text \<open>
  The test \<open>a.getDate() === b.getDate() && a.getFullYear() === b.getFullYear() &&
  a.getMonth() === b.getMonth()\<close>, which \<open>selectableDate\<close> and \<open>dateMatch\<close> write out.
\<close>

definition sameCalendarDay :: "Date \<Rightarrow> Date \<Rightarrow> bool" where
  "sameCalendarDay a b =
     (js_seq (getDate a) (getDate b) \<and> js_seq (getFullYear a) (getFullYear b) \<and>
      js_seq (getMonth a) (getMonth b))"

text \<open>
  The loop of \<open>selectableDate\<close> over \<open>selectableDates\<close>: \<open>Inl True\<close> is the early
  \<open>return true\<close>, \<open>Inr validity\<close> the validity list after the loop.
\<close>

fun selectableDates_loop :: "Date \<Rightarrow> Date list \<Rightarrow> bool list \<Rightarrow> bool + bool list" where
  "selectableDates_loop day [] validity = Inr validity"
| "selectableDates_loop day (enabledDate # rest) validity =
     (if js_seq (getDate day) (getDate enabledDate) \<and>
         js_seq (getFullYear day) (getFullYear enabledDate) \<and>
         js_seq (getMonth day) (getMonth enabledDate)
      then Inl True
      else selectableDates_loop day rest (validity @ [False]))"

definition selectableDate :: "Props \<Rightarrow> Date \<Rightarrow> bool" where
  "selectableDate p day =
     (let validity =
            (case minDate p of Some m \<Rightarrow> [js_ge (getTime day) (getTime m)] | None \<Rightarrow> []);
          validity = validity @
            (case maxDate p of Some m \<Rightarrow> [js_le (getTime day) (getTime m)] | None \<Rightarrow> []);
          validity = validity @
            (if nearbyMonthDays p \<and> \<not> nearbySelectableMonthDays p
             then [js_seq (getMonth day) (Some (month p))] else [])
      in case (case selectableDates p of
                 Some ds \<Rightarrow> selectableDates_loop day ds validity
               | None \<Rightarrow> Inr validity) of
           Inl r \<Rightarrow> r
         | Inr validity \<Rightarrow>
             (let validity = validity @
                    (case unselectableDates p of
                       Some ds \<Rightarrow>
                         map (\<lambda>disabledDate.
                                \<not> js_seq (getDate day) (getDate disabledDate) \<or>
                                \<not> js_seq (getFullYear day) (getFullYear disabledDate) \<or>
                                \<not> js_seq (getMonth day) (getMonth disabledDate)) ds
                     | None \<Rightarrow> []);
                  validity = validity @
                    (case unselectableDaysOfWeek p of
                       Some ds \<Rightarrow> map (\<lambda>dayOfWeek. \<not> js_seq (getDay day) (Some dayOfWeek)) ds
                     | None \<Rightarrow> [])
              in False \<notin> set validity))"

definition emitChosenDate :: "Props \<Rightarrow> Date \<Rightarrow> Emit list" where
  "emitChosenDate p day =
     (if disabled p then [] else if selectableDate p day then [Select day] else [])"

text \<open>\<open>eventsDateMatch\<close> returns \<open>false\<close> (\<open>None\<close>) or a non-empty array of events.\<close>

definition eventsDateMatch :: "Props \<Rightarrow> Date \<Rightarrow> Event list option" where
  "eventsDateMatch p day =
     (case events p of
        None \<Rightarrow> None
      | Some evs \<Rightarrow>
          if evs = [] then None
          else (let dayEvents = filter (\<lambda>e. js_seq (getDay (date e)) (getDay day)) evs
                in if dayEvents = [] then None else Some dayEvents))"

definition hasEvents :: "Props \<Rightarrow> bool" where
  "hasEvents p = (case events p of None \<Rightarrow> False | Some evs \<Rightarrow> evs \<noteq> [])"

text \<open>
  \<open>dateMatch\<close> and \<open>dateWithin\<close>, the local functions of \<open>cellClasses\<close>. Their first
  argument is the cell's Date. \<open>element a i\<close> is \<open>Array.isArray(a) && a[i]\<close>; an index
  beyond the array reads \<open>undefined\<close>, which is falsy, and NaN in a comparison.
\<close>

definition element :: "DateArg \<Rightarrow> nat \<Rightarrow> DateArg" where
  "element a i =
     (case a of Dates ds \<Rightarrow> (if i < length ds then OneDate (ds ! i) else Falsy) | _ \<Rightarrow> Falsy)"

definition dateMatch :: "Date \<Rightarrow> DateArg \<Rightarrow> bool \<Rightarrow> bool" where
  "dateMatch dateOne dateTwo mult =
     (if dateTwo = Falsy \<or> mult then False
      else case dateTwo of
             Dates ds \<Rightarrow>
               list_ex (\<lambda>d. js_seq (getDate dateOne) (getDate d) \<and>
                            js_seq (getFullYear dateOne) (getFullYear d) \<and>
                            js_seq (getMonth dateOne) (getMonth d)) ds
           | OneDate d \<Rightarrow>
               js_seq (getDate dateOne) (getDate d) \<and>
               js_seq (getFullYear dateOne) (getFullYear d) \<and>
               js_seq (getMonth dateOne) (getMonth d)
           | Falsy \<Rightarrow> False)"

definition timeAt :: "Date list \<Rightarrow> nat \<Rightarrow> Number" where
  "timeAt ds i = (if i < length ds then getTime (ds ! i) else None)"

definition dateWithin :: "Date \<Rightarrow> DateArg \<Rightarrow> bool \<Rightarrow> bool" where
  "dateWithin dateOne dates mult =
     (case dates of
        Dates ds \<Rightarrow>
          if mult then False
          else js_gt (getTime dateOne) (timeAt ds 0) \<and> js_lt (getTime dateOne) (timeAt ds 1)
      | _ \<Rightarrow> False)"

text \<open>
  \<open>cellClasses\<close> returns a list of objects, each mapping a class name to a condition.
  The record holds the conditions, each under the name of the prop that configures its
  class.
\<close>

record CellClasses =
  tableCellSelectedClass :: bool
  tableCellFirstSelectedClass :: bool
  tableCellWithinSelectedClass :: bool
  tableCellLastSelectedClass :: bool
  tableCellFirstHoveredClass :: bool
  tableCellWithinHoveredClass :: bool
  tableCellLastHoveredClass :: bool
  tableCellTodayClass :: bool
  tableCellSelectableClass :: bool
  tableCellUnselectableClass :: bool
  tableCellInvisibleClass :: bool
  tableCellNearbyClass :: bool
  tableCellEventsClass :: bool

definition arrayArg :: "Date list option \<Rightarrow> DateArg" where
  "arrayArg a = (case a of None \<Rightarrow> Falsy | Some ds \<Rightarrow> Dates ds)"

definition cellClasses :: "Props \<Rightarrow> Date \<Rightarrow> CellClasses" where
  "cellClasses p day =
     \<lparr> tableCellSelectedClass =
         (dateMatch day (selectedDate p) False \<or> dateWithin day (selectedDate p) (multiple p)),
       tableCellFirstSelectedClass = dateMatch day (element (selectedDate p) 0) (multiple p),
       tableCellWithinSelectedClass = dateWithin day (selectedDate p) (multiple p),
       tableCellLastSelectedClass = dateMatch day (element (selectedDate p) 1) (multiple p),
       tableCellFirstHoveredClass =
         dateMatch day (element (arrayArg (hoveredDateRange p)) 0) False,
       tableCellWithinHoveredClass = dateWithin day (arrayArg (hoveredDateRange p)) False,
       tableCellLastHoveredClass =
         dateMatch day (element (arrayArg (hoveredDateRange p)) 1) False,
       tableCellTodayClass = dateMatch day (OneDate (dateCreator p ())) False,
       tableCellSelectableClass = (selectableDate p day \<and> \<not> disabled p),
       tableCellUnselectableClass = (\<not> selectableDate p day \<or> disabled p),
       tableCellInvisibleClass =
         (\<not> nearbyMonthDays p \<and> \<not> js_seq (getMonth day) (Some (month p))),
       tableCellNearbyClass =
         (nearbySelectableMonthDays p \<and> \<not> js_seq (getMonth day) (Some (month p))),
       tableCellEventsClass = hasEvents p \<rparr>"

definition setRangeHoverEndDate :: "Props \<Rightarrow> Date \<Rightarrow> Emit list" where
  "setRangeHoverEndDate p day = (if range_prop p then [RangeHoverEndDate day] else [])"

text \<open>
  The \<open>while\<close> loop of \<open>changeFocus\<close>, on the local \<open>nextDay\<close>. Its body sets the day of the
  month of \<open>nextDay\<close> to \<open>day.getDate() + Math.sign(inc)\<close>, where \<open>day\<close> is the focused
  date. The loop may run forever: the result is \<open>None\<close> then.
\<close>

partial_function (option) changeFocus_loop :: "Props \<Rightarrow> Date \<Rightarrow> int \<Rightarrow> Date \<Rightarrow> Date option" where
  "changeFocus_loop p day inc nextDay =
     (if (case minDate p of None \<Rightarrow> True | Some m \<Rightarrow> js_gt (getTime nextDay) (getTime m)) \<and>
         (case maxDate p of None \<Rightarrow> True | Some m \<Rightarrow> js_lt (getTime nextDay) (getTime m)) \<and>
         \<not> selectableDate p nextDay
      then changeFocus_loop p day inc (setDate nextDay (js_add (getDate day) (Some (sgn inc))))
      else Some nextDay)"

definition changeFocus :: "Props \<Rightarrow> Date \<Rightarrow> int \<Rightarrow> Emit list option" where
  "changeFocus p day inc =
     (let nextDay = copy_Date day;
          nextDay = setDate nextDay (js_add (getDate day) (Some inc))
      in case changeFocus_loop p day inc nextDay of
           None \<Rightarrow> None
         | Some nextDay \<Rightarrow> Some (setRangeHoverEndDate p nextDay @ [ChangeFocus nextDay]))"

text \<open>
  \<open>manageKeydown\<close>: the result is what is emitted and whether the default action of the
  key is prevented; \<open>None\<close> when \<open>changeFocus\<close> does not return.
\<close>

definition manageKeydown :: "Props \<Rightarrow> string \<Rightarrow> Date \<Rightarrow> (Emit list \<times> bool) option" where
  "manageKeydown p key weekDay =
     (if key = ''Tab'' then Some ([], False)
      else if key \<in> {'' '', ''Space'', ''Spacebar'', ''Enter''}
        then Some (emitChosenDate p weekDay, True)
      else if key \<in> {''ArrowLeft'', ''Left''}
        then map_option (\<lambda>e. (e, True)) (changeFocus p weekDay (- 1))
      else if key \<in> {''ArrowRight'', ''Right''}
        then map_option (\<lambda>e. (e, True)) (changeFocus p weekDay 1)
      else if key \<in> {''ArrowUp'', ''Up''}
        then map_option (\<lambda>e. (e, True)) (changeFocus p weekDay (- 7))
      else if key \<in> {''ArrowDown'', ''Down''}
        then map_option (\<lambda>e. (e, True)) (changeFocus p weekDay 7)
      else Some ([], True))"

section \<open>The date and time picker\<close>

text \<open>
  The state of the component that the \<open>computedValue\<close> setter reads and writes: the data
  field \<open>newValue\<close> (a Date, or \<open>null\<close>) and the props \<open>minDatetime\<close>, \<open>maxDatetime\<close> and
  \<open>datetimeCreator\<close>. The setter returns the new state and the payload of the \<open>input\<close>
  event it emits.
\<close>

record Datetimepicker =
  newValue :: "Date option"
  minDatetime :: "Date option"
  maxDatetime :: "Date option"
  datetimeCreator :: "Date \<Rightarrow> Date"

text \<open>
  The setter, in the three steps of its body. \<open>restoreTimePart\<close> is the value \<open>val\<close>
  before the range check: a copy of the assigned value, with the time of day of the
  current value when the assigned value is midnight of another day, or the result of
  \<open>datetimeCreator\<close> when there is no current value. \<open>checkRange\<close> is the check of the
  minimum and maximum; a bound is read only after the test that it is set.
\<close>

definition restoreTimePart :: "Datetimepicker \<Rightarrow> Date \<Rightarrow> Date" where
  "restoreTimePart dp v =
     (let val = copy_Date v
      in case newValue dp of
           Some cur \<Rightarrow>
             if (\<not> js_seq (getDate v) (getDate cur) \<or>
                 \<not> js_seq (getMonth v) (getMonth cur) \<or>
                 \<not> js_seq (getFullYear v) (getFullYear cur)) \<and>
                js_seq (getHours v) (Some 0) \<and>
                js_seq (getMinutes v) (Some 0) \<and>
                js_seq (getSeconds v) (Some 0)
             then setHours val (getHours cur) (getMinutes cur) (getSeconds cur) (Some 0)
             else val
         | None \<Rightarrow> datetimeCreator dp v)"

definition checkRange :: "Datetimepicker \<Rightarrow> Date \<Rightarrow> Date" where
  "checkRange dp val =
     (if (case minDatetime dp of None \<Rightarrow> False | Some m \<Rightarrow> js_lt (getTime val) (getTime m))
      then the (minDatetime dp)
      else if (case maxDatetime dp of None \<Rightarrow> False | Some m \<Rightarrow> js_gt (getTime val) (getTime m))
      then the (maxDatetime dp)
      else val)"

definition computedValue_set :: "Datetimepicker \<Rightarrow> Date option \<Rightarrow> Datetimepicker \<times> Date option" where
  "computedValue_set dp v =
     (let nv = (case v of
                  Some val0 \<Rightarrow> Some (copy_Date (checkRange dp (restoreTimePart dp val0)))
                | None \<Rightarrow> None)
      in (dp\<lparr>newValue := nv\<rparr>, nv))"

text \<open>
  \<open>date.split(/\D/)\<close>: the string is cut at every character that is not a decimal
  digit, so \<open>n\<close> such characters give \<open>n + 1\<close> tokens, some of them possibly empty.
\<close>

definition isDigit :: "char \<Rightarrow> bool" where
  "isDigit c = (48 \<le> (of_char c :: nat) \<and> (of_char c :: nat) \<le> 57)"

fun split_nondigit :: "string \<Rightarrow> string list" where
  "split_nondigit [] = [[]]"
| "split_nondigit (c # cs) =
     (if isDigit c
      then (case split_nondigit cs of t # ts \<Rightarrow> (c # t) # ts | [] \<Rightarrow> [[c]])
      else [] # split_nondigit cs)"

text \<open>
  The numeric tokens of a string, in the words of the specification: the pieces of the
  split that hold at least one digit. The code does not compute them; it counts all the
  pieces.
\<close>

definition numericTokens :: "string \<Rightarrow> string list" where
  "numericTokens s = filter (\<lambda>t. t \<noteq> []) (split_nondigit s)"

text \<open>
  \<open>parseInt(s, 10)\<close> on a token of the split: the value of the leading decimal digits,
  NaN when there is none. (A token holds digits only, so the white space and the sign
  that \<open>parseInt\<close> accepts in front cannot occur.)
\<close>

definition parseInt10 :: "string \<Rightarrow> Number" where
  "parseInt10 s =
     (let ds = takeWhile isDigit s
      in if ds = [] then None
         else Some (foldl (\<lambda>a c. 10 * a + (int (of_char c) - 48)) 0 ds))"

definition onChangeNativePicker :: "Datetimepicker \<Rightarrow> string \<Rightarrow> Datetimepicker \<times> Date option" where
  "onChangeNativePicker dp dateStr =
     (let s = (if dateStr \<noteq> [] then split_nondigit dateStr else [])
      in if length s \<ge> 5 then
           (let year = parseInt10 (s ! 0);
                month = js_sub (parseInt10 (s ! 1)) (Some 1);
                day = parseInt10 (s ! 2);
                hours = parseInt10 (s ! 3);
                minutes = parseInt10 (s ! 4)
            in computedValue_set dp (Some (new_Date5 year month day hours minutes)))
         else computedValue_set dp None)"

section \<open>Facts about the calendar\<close>

lemma div_bounds: fixes x k :: int assumes "0 < k" shows "k * (x div k) \<le> x" "x < k * (x div k) + k"
proof -
  have e: "x = k * (x div k) + x mod k" by simp
  have "0 \<le> x mod k" "x mod k < k" using assms by simp_all
  then show "k * (x div k) \<le> x" "x < k * (x div k) + k" using e by linarith+
qed

lemma div_succ: fixes x k :: int assumes "1 < k"
  shows "(x + 1) div k = x div k + (if (x + 1) mod k = 0 then 1 else 0)"
proof (cases "(x + 1) mod k = 0")
  case True
  then obtain q where q: "x + 1 = k * q" by (auto simp: mod_eq_0_iff_dvd)
  have "x = k * (q - 1) + (k - 1)" using q by (simp add: algebra_simps)
  then have "x div k = q - 1" using assms by (intro int_div_pos_eq[of x k "q - 1" "k - 1"]) simp_all
  moreover have "(x + 1) div k = q" using q assms by simp
  ultimately show ?thesis using True by simp
next
  case False
  have m: "0 \<le> x mod k" "x mod k < k" using assms by simp_all
  have "x mod k \<noteq> k - 1"
  proof
    assume "x mod k = k - 1"
    then have "(x + 1) mod k = (k - 1 + 1) mod k" by (metis mod_add_left_eq)
    then show False using False by simp
  qed
  then have lt: "x mod k + 1 < k" using m by linarith
  have "x + 1 = k * (x div k) + (x mod k + 1)" by simp
  then have "(x + 1) div k = x div k"
    using lt m by (intro int_div_pos_eq[of "x + 1" k "x div k" "x mod k + 1"]) simp_all
  then show ?thesis using False by simp
qed

lemma DayFromYear_step: "DayFromYear (y + 1) = DayFromYear y + DaysInYear y"
proof -
  have a: "(y + 1 - 1969) div 4 = (y - 1969) div 4 + (if y mod 4 = 0 then 1 else 0)"
  proof -
    have "(y - 1968) mod 4 = y mod 4" using mod_mult_self1[of "y - 1968" 492 4] by simp
    then show ?thesis using div_succ[of 4 "y - 1969"] by simp
  qed
  have b: "(y + 1 - 1901) div 100 = (y - 1901) div 100 + (if y mod 100 = 0 then 1 else 0)"
  proof -
    have "(y - 1900) mod 100 = y mod 100" using mod_mult_self1[of "y - 1900" 19 100] by simp
    then show ?thesis using div_succ[of 100 "y - 1901"] by simp
  qed
  have c: "(y + 1 - 1601) div 400 = (y - 1601) div 400 + (if y mod 400 = 0 then 1 else 0)"
  proof -
    have "(y - 1600) mod 400 = y mod 400" using mod_mult_self1[of "y - 1600" 4 400] by simp
    then show ?thesis using div_succ[of 400 "y - 1601"] by simp
  qed
  have d1: "y mod 100 = 0 \<Longrightarrow> y mod 4 = 0" using dvd_trans[of 4 100 y] by (simp add: mod_eq_0_iff_dvd)
  have d2: "y mod 400 = 0 \<Longrightarrow> y mod 100 = 0" using dvd_trans[of 100 400 y] by (simp add: mod_eq_0_iff_dvd)
  show ?thesis
    unfolding DayFromYear_def DaysInYear_def a b c using d1 d2 by auto
qed


lemma DayFromYear_linear:
  "400 * DayFromYear y \<le> 146097 * y - 287810501"
  "146097 * y - 287811596 \<le> 400 * DayFromYear y"
proof -
  define a where "a = (y - 1969) div 4"
  define b where "b = (y - 1901) div 100"
  define c where "c = (y - 1601) div 400"
  have a: "4 * a \<le> y - 1969" "y - 1969 < 4 * a + 4"
    unfolding a_def using div_bounds[of 4 "y - 1969"] by simp_all
  have b: "100 * b \<le> y - 1901" "y - 1901 < 100 * b + 100"
    unfolding b_def using div_bounds[of 100 "y - 1901"] by simp_all
  have c: "400 * c \<le> y - 1601" "y - 1601 < 400 * c + 400"
    unfolding c_def using div_bounds[of 400 "y - 1601"] by simp_all
  have D: "400 * DayFromYear y = 146000 * y - 287620000 + 400 * a - 400 * b + 400 * c"
    by (simp add: DayFromYear_def a_def b_def c_def)
  show "400 * DayFromYear y \<le> 146097 * y - 287810501"
    using a b c unfolding D by linarith
  show "146097 * y - 287811596 \<le> 400 * DayFromYear y"
    using a b c unfolding D by linarith
qed

lemma YearFromDay_bounds:
  "DayFromYear (YearFromDay d) \<le> d" "d < DayFromYear (YearFromDay d + 1)"
proof -
  define q where "q = (400 * d) div 146097"
  have q: "146097 * q \<le> 400 * d" "400 * d < 146097 * q + 146097"
    unfolding q_def using div_bounds[of 146097 "400 * d"] by simp_all
  have "400 * DayFromYear (1969 + q) \<le> 146097 * q - 145508"
    using DayFromYear_linear(1)[of "1969 + q"] by (simp add: algebra_simps)
  then have lo: "DayFromYear (1969 + q) \<le> d"
    using q by linarith
  have "146097 * q + 291688 \<le> 400 * DayFromYear (1972 + q)"
    using DayFromYear_linear(2)[of "1972 + q"] by (simp add: algebra_simps)
  then have hi: "d < DayFromYear (1972 + q)"
    using q by linarith
  have Y: "YearFromDay d =
     (if d < DayFromYear (1970 + q) then 1969 + q
      else if DayFromYear (1971 + q) \<le> d then 1971 + q else 1970 + q)"
    by (simp add: YearFromDay_def Let_def q_def)
  show "DayFromYear (YearFromDay d) \<le> d"
    unfolding Y using lo by auto
  show "d < DayFromYear (YearFromDay d + 1)"
    unfolding Y using hi by auto
qed


lemma DayWithinYear_range:
  "0 \<le> DayWithinYear t" "DayWithinYear t < DaysInYear (YearFromTime t)"
  using YearFromDay_bounds[of "Day t"] DayFromYear_step[of "YearFromTime t"]
  by (simp_all add: DayWithinYear_def YearFromTime_def)

lemma DateFromTime_first:
  assumes "MonthFromTime t = 0" "DateFromTime t = 1"
  shows "DayWithinYear t = 0"
  using assms by (simp add: DateFromTime_def Let_def)

lemma time_split: "t = Day t * msPerDay + TimeWithinDay t"
  by (simp add: Day_def TimeWithinDay_def)

lemma TimeWithinDay_range: "0 \<le> TimeWithinDay t" "TimeWithinDay t < 86400000"
  by (simp_all add: TimeWithinDay_def msPerDay_def)

lemma Day_mult: "Day (x * msPerDay) = x"
  by (simp add: Day_def msPerDay_def)

lemma DaysInYear_pos: "365 \<le> DaysInYear y"
  by (simp add: DaysInYear_def)

lemma DayFromYear_add: "DayFromYear y + 365 * int n \<le> DayFromYear (y + int n)"
proof (induction n)
  case 0
  then show ?case by simp
next
  case (Suc n)
  have "y + int (Suc n) = y + int n + 1" by simp
  then have "DayFromYear (y + int (Suc n)) = DayFromYear (y + int n) + DaysInYear (y + int n)"
    using DayFromYear_step[of "y + int n"] by presburger
  then show ?case using Suc DaysInYear_pos[of "y + int n"] by simp
qed

lemma DayFromYear_mono: "y \<le> y' \<Longrightarrow> DayFromYear y \<le> DayFromYear y'"
  using DayFromYear_add[of y "nat (y' - y)"] by simp

text \<open>\<open>YearFromDay d\<close> is the only year that contains day \<open>d\<close>.\<close>

lemma YearFromDay_unique:
  assumes "DayFromYear y \<le> d" "d < DayFromYear (y + 1)"
  shows "YearFromDay d = y"
proof (rule ccontr)
  assume "YearFromDay d \<noteq> y"
  then consider "YearFromDay d + 1 \<le> y" | "y + 1 \<le> YearFromDay d" by linarith
  then show False
  proof cases
    case 1
    then have "DayFromYear (YearFromDay d + 1) \<le> d"
      using DayFromYear_mono assms(1) by (meson order_trans)
    then show False using YearFromDay_bounds(2)[of d] by simp
  next
    case 2
    then have "DayFromYear (y + 1) \<le> d"
      using DayFromYear_mono YearFromDay_bounds(1)[of d] by (meson order_trans)
    then show False using assms(2) by simp
  qed
qed

text \<open>
  \<open>MakeDay\<close> is the operation of the ECMAScript specification: for a month from 0 to 11,
  the day number it gives for the date 1 is in that year and month, with day of the
  month 1.
\<close>

lemma MakeDay_first:
  assumes "0 \<le> m" "m \<le> 11"
  shows "YearFromTime (MakeDay y m 1 * msPerDay) = y \<and>
         MonthFromTime (MakeDay y m 1 * msPerDay) = m \<and>
         DateFromTime (MakeDay y m 1 * msPerDay) = 1"
proof -
  define l :: int where "l = (if DaysInYear y = 366 then 1 else 0)"
  define k where "k = monthStart m l"
  have md: "MakeDay y m 1 = DayFromYear y + k"
    using assms by (simp add: MakeDay_def Let_def k_def l_def div_pos_pos_trivial)
  have d: "DaysInYear y = 365 + l"
    by (auto simp: l_def DaysInYear_def)
  have m: "m = 0 \<or> m = 1 \<or> m = 2 \<or> m = 3 \<or> m = 4 \<or> m = 5 \<or> m = 6 \<or> m = 7 \<or> m = 8 \<or>
      m = 9 \<or> m = 10 \<or> m = 11"
    using assms by presburger
  have l: "l = 0 \<or> l = 1" by (simp add: l_def)
  have k: "0 \<le> k" "k < 365 + l"
    using m l by (auto simp: k_def monthStart_def)
  have day: "Day (MakeDay y m 1 * msPerDay) = DayFromYear y + k"
    by (simp add: Day_mult md)
  have yr: "YearFromTime (MakeDay y m 1 * msPerDay) = y"
    unfolding YearFromTime_def day
    using k by (intro YearFromDay_unique) (simp_all add: DayFromYear_step d)
  have w: "DayWithinYear (MakeDay y m 1 * msPerDay) = k"
    by (simp add: DayWithinYear_def yr day)
  have il: "InLeapYear (MakeDay y m 1 * msPerDay) = l"
    by (simp add: InLeapYear_def yr l_def)
  have mo: "MonthFromTime (MakeDay y m 1 * msPerDay) = m"
    unfolding MonthFromTime_def Let_def w il
    using m l by (auto simp: k_def monthStart_def)
  have "DateFromTime (MakeDay y m 1 * msPerDay) = 1"
    unfolding DateFromTime_def Let_def w il mo
    using m l by (auto simp: k_def monthStart_def)
  then show ?thesis using yr mo by simp
qed

lemma new_Date3_January:
  assumes "year < 0 \<or> 99 < year"
  shows "new_Date3 (Some year) (Some 0) (Some n) = TimeClip ((DayFromYear year + n - 1) * msPerDay)"
  using assms
  by (auto simp: new_Date3_def new_Date_def MakeDay_def MakeTime_def MakeDate_def monthStart_def)

lemma DayFromYear_in_range:
  assumes "- 271820 \<le> year" "year \<le> 275760"
  shows "- 99999746 \<le> DayFromYear year" "DayFromYear year \<le> 99999745"
proof -
  have "146097 * year \<le> 40287708720" "- 39712086540 \<le> 146097 * year"
    using assms by simp_all
  then show "- 99999746 \<le> DayFromYear year" "DayFromYear year \<le> 99999745"
    using DayFromYear_linear[of year] by linarith+
qed

lemma TimeClip_days:
  assumes "- 100000000 \<le> x" "x \<le> 100000000"
  shows "TimeClip (x * msPerDay) = Some (x * msPerDay)"
  using assms by (simp add: TimeClip_def msPerDay_def abs_le_iff)


lemma Day_range:
  assumes "\<bar>t\<bar> \<le> 8640000000000000"
  shows "- 100000000 \<le> Day t" "Day t \<le> 100000000"
proof -
  have "- 100000000 * 86400000 \<le> t" "t \<le> 100000000 * 86400000" using assms by auto
  then show "- 100000000 \<le> Day t" "Day t \<le> 100000000"
    using div_bounds[of 86400000 t] by (auto simp: Day_def msPerDay_def)
qed

lemma YearFromTime_le:
  assumes "\<bar>t\<bar> \<le> 8640000000000000"
  shows "YearFromTime t \<le> 275760"
proof (rule ccontr)
  assume "\<not> YearFromTime t \<le> 275760"
  then have "146097 * YearFromTime t \<ge> 40287854817" by simp
  then have "40000043221 \<le> 400 * DayFromYear (YearFromTime t)"
    using DayFromYear_linear(2)[of "YearFromTime t"] by linarith
  moreover have "DayFromYear (YearFromTime t) \<le> Day t"
    using YearFromDay_bounds(1)[of "Day t"] by (simp add: YearFromTime_def)
  ultimately show False using Day_range(2)[OF assms] by linarith
qed

section \<open>Week numbers\<close>

text \<open>
  For a year outside 0..99 whose January is representable, \<open>firstWeekOffset\<close> is a number
  \<open>off\<close> from \<open>dow - doy\<close> to \<open>dow - doy + 6\<close> such that day \<open>off\<close> of the year (counted from
  0) falls on week day \<open>dow\<close>: the first week starts there.
\<close>

lemma firstWeekOffset_value:
  assumes cfg: "0 \<le> dow" "dow \<le> 6" "doy = 1 \<or> doy = 4"
    and yr: "year < 0 \<or> 99 < year" "- 271820 \<le> year" "year \<le> 275760"
  shows "\<exists>off. firstWeekOffset year dow doy = Some off \<and> dow - doy \<le> off \<and>
           off \<le> dow - doy + 6 \<and> (DayFromYear year + off + 4 - dow) mod 7 = 0"
proof -
  define fwd where "fwd = 7 + dow - doy"
  define x where "x = DayFromYear year + fwd - 1"
  have f: "3 \<le> fwd" "fwd \<le> 12" using cfg by (auto simp: fwd_def)
  have "- 100000000 \<le> x" "x \<le> 100000000"
    using DayFromYear_in_range[OF yr(2,3)] f by (simp_all add: x_def)
  then have j: "new_Date3 (Some year) (Some 0) (Some fwd) = Some (x * msPerDay)"
    using new_Date3_January[OF yr(1), of fwd] by (simp add: TimeClip_days x_def)
  define wd where "wd = (x + 4) mod 7"
  have g: "getDay (new_Date3 (Some year) (Some 0) (Some fwd)) = Some wd"
    by (simp add: j getDay_def WeekDay_def Day_mult wd_def)
  have w: "0 \<le> wd" "wd < 7" by (simp_all add: wd_def)
  then have p: "0 < 7 + wd - dow" using cfg by linarith
  define r where "r = (7 + wd - dow) mod 7"
  have jr: "js_rem (7 + wd - dow) 7 = r"
    using p by (simp add: js_rem_def r_def)
  have r: "0 \<le> r" "r < 7" by (simp_all add: r_def)
  have off: "firstWeekOffset year dow doy = Some (- r + fwd - 1)"
    unfolding firstWeekOffset_def Let_def fwd_def[symmetric] g by (simp add: jr)
  have "(x + 4 - dow - r) mod 7 = 0"
    unfolding r_def wd_def by presburger
  then have m: "(DayFromYear year + (- r + fwd - 1) + 4 - dow) mod 7 = 0"
    by (simp add: x_def algebra_simps)
  show ?thesis
    using off m r by (intro exI[of _ "- r + fwd - 1"]) (simp add: fwd_def)
qed

lemma isLeapYear_iff: "isLeapYear year \<longleftrightarrow> (4 dvd year \<and> \<not> 100 dvd year) \<or> 400 dvd year"
proof -
  have "js_rem year k = 0 \<longleftrightarrow> k dvd year" if "0 < k" for k
    using that by (auto simp: js_rem_def sgn_if mod_eq_0_iff_dvd)
  then show ?thesis by (simp add: isLeapYear_def)
qed

lemma daysInYear_DaysInYear: "daysInYear year = DaysInYear year"
proof -
  have d: "100 dvd year \<Longrightarrow> 4 dvd year" "400 dvd year \<Longrightarrow> 100 dvd year"
    using dvd_trans[of 4 100 year] dvd_trans[of 100 400 year] by simp_all
  show ?thesis
    unfolding daysInYear_def isLeapYear_iff DaysInYear_def using d
    by (auto simp: mod_eq_0_iff_dvd)
qed

lemma weeksInYear_value:
  assumes cfg: "0 \<le> dow" "dow \<le> 6" "doy = 1 \<or> doy = 4"
    and yr: "year < - 1 \<or> 99 < year" "- 271820 \<le> year" "year \<le> 275759"
  shows "weeksInYear year dow doy = Some 52 \<or> weeksInYear year dow doy = Some 53"
proof -
  from firstWeekOffset_value[OF cfg, of year] yr
  obtain a where a: "firstWeekOffset year dow doy = Some a" "dow - doy \<le> a"
      "a \<le> dow - doy + 6" "(DayFromYear year + a + 4 - dow) mod 7 = 0"
    by auto
  from firstWeekOffset_value[OF cfg, of "year + 1"] yr
  obtain b where b: "firstWeekOffset (year + 1) dow doy = Some b" "dow - doy \<le> b"
      "b \<le> dow - doy + 6" "(DayFromYear (year + 1) + b + 4 - dow) mod 7 = 0"
    by auto
  define n where "n = daysInYear year - a + b"
  have d: "daysInYear year = 365 \<or> daysInYear year = 366" by (simp add: daysInYear_def)
  have "(DayFromYear year + daysInYear year + b + 4 - dow) mod 7 = 0"
    using b(4) by (simp add: DayFromYear_step daysInYear_DaysInYear)
  then have "n mod 7 = 0"
    using a(4) unfolding n_def by presburger
  moreover have "359 \<le> n" "n \<le> 372" using a b d by (auto simp: n_def)
  ultimately have "n = 364 \<or> n = 371" by presburger
  moreover have "weeksInYear year dow doy = Some (of_int n / 7)"
    by (simp add: weeksInYear_def a b n_def)
  ultimately show ?thesis by auto
qed


text \<open>
  For a year from 0 to 99 the constructor builds the date in the year 1900 later, so
  \<open>firstWeekOffset\<close> is that of the later year; from 1 to 98 the leap years agree as well,
  and \<open>weeksInYear\<close> is that of the later year.
\<close>

lemma firstWeekOffset_two_digit:
  assumes "0 \<le> year" "year \<le> 99"
  shows "firstWeekOffset year dow doy = firstWeekOffset (1900 + year) dow doy"
  using assms by (simp add: firstWeekOffset_def new_Date3_def new_Date_def)

lemma daysInYear_two_digit:
  assumes "1 \<le> year" "year \<le> 98"
  shows "daysInYear year = daysInYear (1900 + year)"
proof -
  have a: "4 dvd (1900 + year) \<longleftrightarrow> 4 dvd year"
    by (rule dvd_add_right_iff) simp
  have b: "\<not> 100 dvd year" "\<not> 400 dvd year"
    using assms by (auto dest!: zdvd_imp_le)
  have c: "100 dvd (1900 + year) \<longleftrightarrow> 100 dvd year"
    by (rule dvd_add_right_iff) simp
  have d: "\<not> 400 dvd (1900 + year)"
    using dvd_trans[of 100 400 "1900 + year"] b c by auto
  show ?thesis
    unfolding daysInYear_def isLeapYear_iff using a b c d by simp
qed

lemma weeksInYear_two_digit:
  assumes "1 \<le> year" "year \<le> 98"
  shows "weeksInYear year dow doy = weeksInYear (1900 + year) dow doy"
proof -
  have a: "firstWeekOffset year dow doy = firstWeekOffset (1900 + year) dow doy"
    using assms by (intro firstWeekOffset_two_digit) simp_all
  have "firstWeekOffset (year + 1) dow doy = firstWeekOffset (1900 + (year + 1)) dow doy"
    using assms by (intro firstWeekOffset_two_digit) simp_all
  then have b: "firstWeekOffset (year + 1) dow doy = firstWeekOffset (1900 + year + 1) dow doy"
    by (simp add: add.assoc)
  have c: "daysInYear year = daysInYear (1900 + year)"
    using assms by (rule daysInYear_two_digit)
  show ?thesis
    unfolding weeksInYear_def a b c ..
qed


text \<open>
  Claim C5, as stated: for every year and every configuration with \<open>firstDayOfWeek\<close> from
  0 to 6 and \<open>rulesForFirstWeek\<close> 1 or 4, \<open>weeksInYear\<close> is 52 or 53. It fails for the year
  99 with Monday and the ISO rule: \<open>firstWeekOffset(99)\<close> builds \<open>new Date(99, 0, 4)\<close>, which
  is 4 January 1999, while \<open>firstWeekOffset(100)\<close> builds 4 January of the year 100; the
  two offsets are both 3 and the result is 365 / 7. It fails for the year -1, where
  \<open>firstWeekOffset(0)\<close> builds 4 January 1900, and for the year 0, which \<open>daysInYear\<close>
  takes as a leap year while the offsets are those of 1900 and 1901. And it fails for
  the years 275760 and -271821, where a January is beyond the range of a Date and the
  result is NaN.
\<close>

theorem weeksInYear_bad_years:
  "weeksInYear 99 1 4 = Some (365 / 7) \<and> weeksInYear 99 1 4 \<noteq> Some 52 \<and>
   weeksInYear 99 1 4 \<noteq> Some 53 \<and>
   new_Date3 (Some 99) (Some 0) (Some 4) = new_Date3 (Some 1999) (Some 0) (Some 4) \<and>
   weeksInYear (- 1) 1 4 = Some (362 / 7) \<and>
   weeksInYear 0 1 4 = Some (365 / 7) \<and>
   weeksInYear 275760 1 4 = None \<and>
   weeksInYear (- 271821) 1 4 = None"
proof -
  have a: "firstWeekOffset 99 1 4 = Some 3" by code_simp
  have b: "firstWeekOffset 100 1 4 = Some 3" by code_simp
  have d: "daysInYear 99 = 365" by code_simp
  have w: "weeksInYear 99 1 4 = Some (365 / 7)"
    by (simp add: weeksInYear_def a b d)
  have n: "new_Date3 (Some 99) (Some 0) (Some 4) = new_Date3 (Some 1999) (Some 0) (Some 4)"
    by (simp add: new_Date3_def new_Date_def)
  have a': "firstWeekOffset (- 1) 1 4 = Some 3" by code_simp
  have b': "firstWeekOffset 0 1 4 = Some 0" by code_simp
  have d': "daysInYear (- 1) = 365" by code_simp
  have w': "weeksInYear (- 1) 1 4 = Some (362 / 7)"
    using a' b' d' by (simp add: weeksInYear_def)
  have c0: "firstWeekOffset 1 1 4 = Some (- 1)" by code_simp
  have d0: "daysInYear 0 = 366" by code_simp
  have w0: "weeksInYear 0 1 4 = Some (365 / 7)"
    using b' c0 d0 by (simp add: weeksInYear_def)
  have hi: "firstWeekOffset 275761 1 4 = None" by code_simp
  have lo: "firstWeekOffset (- 271821) 1 4 = None" by code_simp
  have wh: "weeksInYear 275760 1 4 = None"
    using hi by (simp add: weeksInYear_def split: option.splits)
  have wl: "weeksInYear (- 271821) 1 4 = None"
    using lo by (simp add: weeksInYear_def)
  show ?thesis unfolding w w' w0 wh wl using n by simp
qed

text \<open>
  Claim C5, amended: for every year from -271820 to 275759 other than -1, 0 and 99, and
  every configuration with \<open>firstDayOfWeek\<close> from 0 to 6 and \<open>rulesForFirstWeek\<close> 1 or 4,
  \<open>weeksInYear\<close> is 52 or 53; \<open>daysInYear\<close> is 366 for a year divisible by 4 and not by
  100, or divisible by 400, and 365 otherwise.
\<close>

theorem weeksInYear_52_or_53:
  assumes "0 \<le> dow" "dow \<le> 6" "doy = 1 \<or> doy = 4"
    and "- 271820 \<le> Y" "Y \<le> 275759" "Y \<noteq> - 1" "Y \<noteq> 0" "Y \<noteq> 99"
  shows "(weeksInYear Y dow doy = Some 52 \<or> weeksInYear Y dow doy = Some 53) \<and>
         daysInYear Y = (if (4 dvd Y \<and> \<not> 100 dvd Y) \<or> 400 dvd Y then 366 else 365)"
proof -
  have "weeksInYear Y dow doy = Some 52 \<or> weeksInYear Y dow doy = Some 53"
  proof (cases "1 \<le> Y \<and> Y \<le> 98")
    case True
    then have "weeksInYear Y dow doy = weeksInYear (1900 + Y) dow doy"
      by (intro weeksInYear_two_digit) simp_all
    moreover have "weeksInYear (1900 + Y) dow doy = Some 52 \<or>
        weeksInYear (1900 + Y) dow doy = Some 53"
      using True assms(1-3) by (intro weeksInYear_value) simp_all
    ultimately show ?thesis by simp
  next
    case False
    then have "Y < - 1 \<or> 99 < Y" using assms(6-8) by linarith
    then show ?thesis
      using assms(1-5) by (intro weeksInYear_value)
  qed
  then show ?thesis by (simp add: daysInYear_def isLeapYear_iff)
qed

text \<open>
  The years 2020 (leap, 53 ISO weeks) and 2021 (52 ISO weeks), the year 50, whose weeks
  are those of 1950, and the year -2.
\<close>

theorem weeksInYear_52_or_53_witness:
  "weeksInYear 2020 1 4 = Some 53 \<and> daysInYear 2020 = 366 \<and>
   weeksInYear 2021 1 4 = Some 52 \<and> daysInYear 2021 = 365 \<and>
   weeksInYear 50 1 4 = Some 52 \<and> daysInYear 50 = 365 \<and>
   weeksInYear (- 2) 0 1 = Some 52 \<and> daysInYear (- 2) = 365"
proof -
  have c: "(0::int) \<le> 1" "(1::int) \<le> 6" "(4::int) = 1 \<or> (4::int) = 4" by simp_all
  have c': "(0::int) \<le> 0" "(0::int) \<le> 6" "(1::int) = 1 \<or> (1::int) = 4" by simp_all
  have n0: "weeksInYear 2020 1 4 \<noteq> Some 52" by code_simp
  have n1: "weeksInYear 2021 1 4 \<noteq> Some 53" by code_simp
  have n2: "weeksInYear 50 1 4 \<noteq> Some 53" by code_simp
  have n3: "weeksInYear (- 2) 0 1 \<noteq> Some 53" by code_simp
  show ?thesis
    using weeksInYear_52_or_53[OF c, of 2020] weeksInYear_52_or_53[OF c, of 2021]
      weeksInYear_52_or_53[OF c, of 50] weeksInYear_52_or_53[OF c', of "- 2"] n0 n1 n2 n3
    by simp
qed


lemma getSetDayOfYear_range:
  assumes t: "\<bar>t\<bar> \<le> 8640000000000000"
    and y: "YearFromTime t < 0 \<or> 99 < YearFromTime t" "- 271820 \<le> YearFromTime t"
  shows "\<exists>n. getSetDayOfYear (Some t) = Some n \<and> 1 \<le> n \<and> n \<le> 367"
proof -
  define Y where "Y = YearFromTime t"
  define k where "k = Day t - DayFromYear Y"
  define w where "w = TimeWithinDay t"
  have k: "0 \<le> k" "k < 366"
  proof -
    have "DayFromYear Y \<le> Day t" "Day t < DayFromYear Y + DaysInYear Y"
      using YearFromDay_bounds[of "Day t"] DayFromYear_step[of Y]
      by (simp_all add: Y_def YearFromTime_def)
    moreover have "DaysInYear Y \<le> 366" by (simp add: DaysInYear_def)
    ultimately show "0 \<le> k" "k < 366" by (simp_all add: k_def)
  qed
  have w: "0 \<le> w" "w < 86400000" using TimeWithinDay_range[of t] by (simp_all add: w_def)
  have "- 100000000 \<le> DayFromYear Y" "DayFromYear Y \<le> 100000000"
    using DayFromYear_in_range[of Y] y YearFromTime_le[OF t] by (simp_all add: Y_def)
  then have j: "new_Date3 (Some Y) (Some 0) (Some 1) = Some (DayFromYear Y * msPerDay)"
    using new_Date3_January[of Y 1] y by (simp add: TimeClip_days Y_def)
  have x: "t - DayFromYear Y * msPerDay = k * 86400000 + w"
    using time_split[of t] by (simp add: k_def w_def msPerDay_def algebra_simps)
  have g: "getSetDayOfYear (Some t) = Some (round_days (k * 86400000 + w) + 1)"
    by (simp add: getSetDayOfYear_def getFullYear_def getTime_def js_sub_def Y_def[symmetric] j x)
  have "0 \<le> round_days (k * 86400000 + w)" "round_days (k * 86400000 + w) \<le> 366"
    using k w div_bounds[of 86400000 "k * 86400000 + w + 43200000"]
    by (simp_all add: round_days_def)
  then show ?thesis using g by simp
qed


lemma weeksInYear_last_year:
  assumes cfg: "0 \<le> dow" "dow \<le> 6" "doy = 1 \<or> doy = 4"
  shows "weeksInYear 275760 dow doy = None"
proof -
  define fwd where "fwd = 7 + dow - doy"
  have f: "3 \<le> fwd" using cfg by (auto simp: fwd_def)
  have "new_Date3 (Some 275761) (Some 0) (Some fwd) = TimeClip ((100000110 + fwd - 1) * msPerDay)"
    using new_Date3_January[of 275761 fwd] by (simp add: DayFromYear_def)
  also have "\<dots> = None"
    using f by (simp add: TimeClip_def msPerDay_def)
  finally have "firstWeekOffset 275761 dow doy = None"
    by (simp add: firstWeekOffset_def Let_def fwd_def getDay_def)
  then show ?thesis
    by (simp add: weeksInYear_def split: option.splits)
qed

lemma week_bounds:
  fixes n off :: int
  assumes "1 \<le> n" "n \<le> 367" "- 4 \<le> off" "off \<le> 11"
  shows "- 1 \<le> (n - off - 1) div 7 + 1" "(n - off - 1) div 7 + 1 \<le> 53"
  using assms div_bounds[of 7 "n - off - 1"] by linarith+

lemma getWeekNumber_value:
  assumes cfg: "0 \<le> firstDayOfWeek p" "firstDayOfWeek p \<le> 6"
      "rulesForFirstWeek p = 1 \<or> rulesForFirstWeek p = 4"
    and t: "\<bar>t\<bar> \<le> 8640000000000000"
    and y: "101 \<le> YearFromTime t \<or> (- 271819 \<le> YearFromTime t \<and> YearFromTime t \<le> - 2)"
  shows "\<exists>w::int. getWeekNumber p (Some t) = Some (of_int w) \<and> 1 \<le> w \<and> w \<le> 53"
proof -
  define Y where "Y = YearFromTime t"
  define dow where "dow = firstDayOfWeek p"
  define doy where "doy = rulesForFirstWeek p"
  have c: "0 \<le> dow" "dow \<le> 6" "doy = 1 \<or> doy = 4" using cfg by (simp_all add: dow_def doy_def)
  have Y: "101 \<le> Y \<or> (- 271819 \<le> Y \<and> Y \<le> - 2)" "Y \<le> 275760"
    using y YearFromTime_le[OF t] by (simp_all add: Y_def)
  obtain n where n: "getSetDayOfYear (Some t) = Some n" "1 \<le> n" "n \<le> 367"
    using getSetDayOfYear_range[OF t] y by auto
  obtain off where off: "firstWeekOffset Y dow doy = Some off" "dow - doy \<le> off"
      "off \<le> dow - doy + 6"
    using firstWeekOffset_value[OF c, of Y] Y by auto
  have ob: "- 4 \<le> off" "off \<le> 11" using off(2,3) c by auto
  define week where "week = (n - off - 1) div 7 + 1"
  have wk: "- 1 \<le> week" "week \<le> 53"
    using week_bounds[OF n(2,3) ob] by (simp_all add: week_def)
  have prev: "weeksInYear (Y - 1) dow doy = Some 52 \<or> weeksInYear (Y - 1) dow doy = Some 53"
    using Y by (intro weeksInYear_value[OF c]) auto
  have this_year: "weeksInYear Y dow doy = None \<or> weeksInYear Y dow doy = Some 52 \<or>
      weeksInYear Y dow doy = Some 53"
  proof (cases "Y = 275760")
    case True
    then show ?thesis using weeksInYear_last_year[OF c] by simp
  next
    case False
    then have "weeksInYear Y dow doy = Some 52 \<or> weeksInYear Y dow doy = Some 53"
      using Y by (intro weeksInYear_value[OF c]) auto
    then show ?thesis by blast
  qed
  have g: "getWeekNumber p (Some t) =
      (if week < 1 then
         (case weeksInYear (Y - 1) dow doy of None \<Rightarrow> None | Some w \<Rightarrow> Some (of_int week + w))
       else
         (case weeksInYear Y dow doy of
            None \<Rightarrow> Some (of_int week)
          | Some w \<Rightarrow> if of_int week > w then Some (of_int week - w) else Some (of_int week)))"
    unfolding week_def
    by (simp add: getWeekNumber_def Let_def getFullYear_def Y_def[symmetric] dow_def[symmetric]
        doy_def[symmetric] n(1) off(1))
  show ?thesis
  proof (cases "week < 1")
    case True
    from prev show ?thesis
    proof
      assume "weeksInYear (Y - 1) dow doy = Some 52"
      then have "getWeekNumber p (Some t) = Some (of_int (week + 52))"
        using True by (simp add: g)
      then show ?thesis using wk True by (intro exI[of _ "week + 52"]) simp
    next
      assume "weeksInYear (Y - 1) dow doy = Some 53"
      then have "getWeekNumber p (Some t) = Some (of_int (week + 53))"
        using True by (simp add: g)
      then show ?thesis using wk True by (intro exI[of _ "week + 53"]) simp
    qed
  next
    case False
    from this_year consider
      (none) "weeksInYear Y dow doy = None" |
      (w52) "weeksInYear Y dow doy = Some 52" |
      (w53) "weeksInYear Y dow doy = Some 53"
      by fastforce
    then show ?thesis
    proof cases
      case none
      then have "getWeekNumber p (Some t) = Some (of_int week)" using False by (simp add: g)
      then show ?thesis using wk False by (intro exI[of _ week]) simp
    next
      case w52
      show ?thesis
      proof (cases "week = 53")
        case True
        then have "getWeekNumber p (Some t) = Some (of_int 1)" using w52 by (simp add: g)
        then show ?thesis by (intro exI[of _ 1]) simp
      next
        case f: False
        then have "week \<le> 52" using wk by simp
        then have "\<not> (of_int week :: rat) > 52"
          by (metis of_int_le_iff of_int_numeral not_less)
        then have "getWeekNumber p (Some t) = Some (of_int week)"
          using w52 False by (simp add: g)
        then show ?thesis using wk False by (intro exI[of _ week]) simp
      qed
    next
      case w53
      have "\<not> (of_int week :: rat) > 53"
        using wk(2) by (metis of_int_le_iff of_int_numeral not_less)
      then have "getWeekNumber p (Some t) = Some (of_int week)"
        using w53 False by (simp add: g)
      then show ?thesis using wk False by (intro exI[of _ week]) simp
    qed
  qed
qed


text \<open>
  Claim C4, as stated: for every well-formed date and every configuration with
  \<open>firstDayOfWeek\<close> from 0 to 6 and \<open>rulesForFirstWeek\<close> 1 or 4, \<open>getWeekNumber\<close> is an
  integer from 1 to 53. It fails for 1 January of the year 50 with Monday and the ISO
  rule: \<open>getSetDayOfYear\<close> subtracts \<open>new Date(50, 0, 1)\<close>, which is 1 January 1950, and
  the day of the year is -693959 and the week number -99085. It also fails for 1 January
  of the year 100, which is in the last week of the year 99: \<open>weeksInYear(99)\<close> is
  365 / 7, and so is the result.
\<close>

theorem getWeekNumber_year_50:
  "\<bar>- 60589296000000\<bar> \<le> (8640000000000000 :: int) \<and>
   getFullYear (Some (- 60589296000000)) = Some 50 \<and>
   getMonth (Some (- 60589296000000)) = Some 0 \<and>
   getDate (Some (- 60589296000000)) = Some 1 \<and>
   firstDayOfWeek (rowProps 0 1 4 None) = 1 \<and> rulesForFirstWeek (rowProps 0 1 4 None) = 4 \<and>
   getSetDayOfYear (Some (- 60589296000000)) = Some (- 693959) \<and>
   getWeekNumber (rowProps 0 1 4 None) (Some (- 60589296000000)) = Some (- 99085) \<and>
   getFullYear (Some (- 59011459200000)) = Some 100 \<and>
   getWeekNumber (rowProps 0 1 4 None) (Some (- 59011459200000)) = Some (365 / 7)"
proof -
  have y: "getFullYear (Some (- 60589296000000)) = Some 50"
      "getMonth (Some (- 60589296000000)) = Some 0"
      "getDate (Some (- 60589296000000)) = Some 1"
    by code_simp+
  have c: "firstDayOfWeek (rowProps 0 1 4 None) = 1" "rulesForFirstWeek (rowProps 0 1 4 None) = 4"
    by (simp_all add: rowProps_def)
  have n: "getSetDayOfYear (Some (- 60589296000000)) = Some (- 693959)" by code_simp
  have a: "firstWeekOffset 50 1 4 = Some 1" by code_simp
  have b: "firstWeekOffset 49 1 4 = Some 2" by code_simp
  have d: "daysInYear 49 = 365" by code_simp
  have w: "weeksInYear 49 1 4 = Some 52"
    using a b d by (simp add: weeksInYear_def)
  have g: "getWeekNumber (rowProps 0 1 4 None) (Some (- 60589296000000)) = Some (- 99085)"
    by (simp add: getWeekNumber_def Let_def c y n a w)
  have y': "getFullYear (Some (- 59011459200000)) = Some 100" by code_simp
  have n': "getSetDayOfYear (Some (- 59011459200000)) = Some 1" by code_simp
  have a': "firstWeekOffset 100 1 4 = Some 3" by code_simp
  have b': "firstWeekOffset 99 1 4 = Some 3" by code_simp
  have d': "daysInYear 99 = 365" by code_simp
  have w': "weeksInYear 99 1 4 = Some (365 / 7)"
    using a' b' d' by (simp add: weeksInYear_def)
  have g': "getWeekNumber (rowProps 0 1 4 None) (Some (- 59011459200000)) = Some (365 / 7)"
    by (simp add: getWeekNumber_def Let_def c y' n' a' w')
  show ?thesis using y c n g y' g' by simp
qed

text \<open>
  Claim C4, amended: for every Date that is not an Invalid Date and whose year is at
  least 101, or from -271819 to -2 (so that neither the year, nor the one before, nor the
  one after is from 0 to 99, where \<open>new Date\<close> adds 1900, and January of the year before is
  within the range of a Date), and every configuration with \<open>firstDayOfWeek\<close> from 0 to 6
  and \<open>rulesForFirstWeek\<close> 1 or 4, \<open>getWeekNumber\<close> is an integer from 1 to 53; and it is
  the same for any two sets of props with the same \<open>firstDayOfWeek\<close> and
  \<open>rulesForFirstWeek\<close>.
\<close>

theorem getWeekNumber_range:
  assumes "0 \<le> firstDayOfWeek p" "firstDayOfWeek p \<le> 6"
      "rulesForFirstWeek p = 1 \<or> rulesForFirstWeek p = 4"
    and "d = Some t" "\<bar>t\<bar> \<le> 8640000000000000"
    and "getFullYear d = Some Y" "101 \<le> Y \<or> (- 271819 \<le> Y \<and> Y \<le> - 2)"
  shows "(\<exists>w::int. getWeekNumber p d = Some (of_int w) \<and> 1 \<le> w \<and> w \<le> 53) \<and>
         (\<forall>p'. firstDayOfWeek p' = firstDayOfWeek p \<and>
               rulesForFirstWeek p' = rulesForFirstWeek p \<longrightarrow>
               getWeekNumber p' d = getWeekNumber p d)"
proof -
  have "YearFromTime t = Y" using assms(4,6) by (simp add: getFullYear_def)
  then have "\<exists>w::int. getWeekNumber p (Some t) = Some (of_int w) \<and> 1 \<le> w \<and> w \<le> 53"
    using assms(1-3,5,7) by (intro getWeekNumber_value) simp_all
  moreover have "getWeekNumber p' d = getWeekNumber p d"
    if "firstDayOfWeek p' = firstDayOfWeek p \<and> rulesForFirstWeek p' = rulesForFirstWeek p" for p'
    using that by (simp add: getWeekNumber_def)
  ultimately show ?thesis using assms(4) by blast
qed

text \<open>
  The date 2021-01-01 with Monday and the ISO rule: week 53, also for a disabled row of
  another month with another \<open>dateCreator\<close>.
\<close>

theorem getWeekNumber_range_witness:
  "(let p = rowProps 0 1 4 None;
        p' = (rowProps 5 1 4 (Some 0)) \<lparr> disabled := True \<rparr>;
        d = new_Date3 (Some 2021) (Some 0) (Some 1)
    in d = Some 1609459200000 \<and> \<bar>1609459200000\<bar> \<le> (8640000000000000 :: int) \<and>
       getFullYear d = Some 2021 \<and>
       firstDayOfWeek p = 1 \<and> rulesForFirstWeek p = 4 \<and>
       firstDayOfWeek p' = firstDayOfWeek p \<and> rulesForFirstWeek p' = rulesForFirstWeek p \<and>
       getWeekNumber p d = Some 53 \<and> getWeekNumber p' d = Some 53)"
proof -
  let ?p = "rowProps 0 1 4 None"
  let ?p' = "(rowProps 5 1 4 (Some 0)) \<lparr> disabled := True \<rparr>"
  let ?d = "new_Date3 (Some 2021) (Some 0) (Some 1)"
  have d: "?d = Some 1609459200000" by code_simp
  have b: "\<bar>1609459200000\<bar> \<le> (8640000000000000 :: int)" by simp
  have y: "getFullYear ?d = Some 2021" by code_simp
  have c: "0 \<le> firstDayOfWeek ?p" "firstDayOfWeek ?p \<le> 6"
      "rulesForFirstWeek ?p = 1 \<or> rulesForFirstWeek ?p = 4"
    by (simp_all add: rowProps_def)
  have c': "firstDayOfWeek ?p = 1" "rulesForFirstWeek ?p = 4"
      "firstDayOfWeek ?p' = firstDayOfWeek ?p" "rulesForFirstWeek ?p' = rulesForFirstWeek ?p"
    by (simp_all add: rowProps_def)
  have yr: "101 \<le> (2021::int) \<or> (- 271819 \<le> (2021::int) \<and> (2021::int) \<le> - 2)" by simp
  have e: "getWeekNumber ?p ?d = Some 53" by code_simp
  have "getWeekNumber ?p' ?d = getWeekNumber ?p ?d"
    using getWeekNumber_range[OF c d b y yr] c'(3,4) by blast
  then have e': "getWeekNumber ?p' ?d = Some 53" using e by simp
  show ?thesis
    unfolding Let_def by (intro conjI d b y c' e e')
qed

section \<open>The week of 2021-01-01\<close>

lemma firstWeekOffset_2021: "firstWeekOffset 2021 1 4 = Some 3"
  by (simp add: firstWeekOffset_def new_Date3_def new_Date_def TimeClip_def MakeDate_def
      MakeDay_def MakeTime_def DayFromYear_def DaysInYear_def monthStart_def msPerDay_def
      getDay_def WeekDay_def Day_def js_rem_def)

lemma firstWeekOffset_2020: "firstWeekOffset 2020 1 4 = Some (- 2)"
  by (simp add: firstWeekOffset_def new_Date3_def new_Date_def TimeClip_def MakeDate_def
      MakeDay_def MakeTime_def DayFromYear_def DaysInYear_def monthStart_def msPerDay_def
      getDay_def WeekDay_def Day_def js_rem_def)

lemma weeksInYear_2020: "weeksInYear 2020 1 4 = Some 53"
  by (simp add: weeksInYear_def firstWeekOffset_2020 firstWeekOffset_2021 daysInYear_def
      isLeapYear_def js_rem_def)

lemma round_days_within_day:
  "0 \<le> x \<Longrightarrow> x < 86400000 \<Longrightarrow> round_days x = 0 \<or> round_days x = 1"
  unfolding round_days_def by linarith

text \<open>
  Claim C7. With \<open>firstDayOfWeek = 1\<close> (Monday) and \<open>rulesForFirstWeek = 4\<close> (ISO),
  \<open>getWeekNumber\<close> returns 53 for the date 2021-01-01, that is for every Date whose year,
  month and day of the month are 2021, 0 (January) and 1, at any time of the day: the
  date belongs to the last week of 2020.
\<close>

theorem week_number_2021_01_01:
  assumes cfg: "firstDayOfWeek p = 1" "rulesForFirstWeek p = 4"
    and d: "getFullYear d = Some 2021" "getMonth d = Some 0" "getDate d = Some 1"
  shows "getWeekNumber p d = Some 53"
proof -
  from d obtain t where t: "d = Some t" "YearFromTime t = 2021" "MonthFromTime t = 0"
      "DateFromTime t = 1"
    by (auto simp: getFullYear_def getMonth_def getDate_def)
  have "DayWithinYear t = 0" using t by (simp add: DateFromTime_first)
  then have day: "Day t = 18628" using t(2) by (simp add: DayWithinYear_def DayFromYear_def)
  define x where "x = TimeWithinDay t"
  have tx: "t = 1609459200000 + x"
    using time_split[of t] day by (simp add: x_def msPerDay_def)
  have x: "0 \<le> x" "x < 86400000" using TimeWithinDay_range[of t] by (simp_all add: x_def)
  have j1: "new_Date3 (Some 2021) (Some 0) (Some 1) = Some 1609459200000"
    by (simp add: new_Date3_def new_Date_def TimeClip_def MakeDate_def MakeDay_def MakeTime_def
        DayFromYear_def DaysInYear_def monthStart_def msPerDay_def)
  have doy: "getSetDayOfYear d = Some (round_days x + 1)"
    using d(1) by (simp add: getSetDayOfYear_def j1 getTime_def js_sub_def t(1) tx)
  from round_days_within_day[OF x] show ?thesis
    by (auto simp add: getWeekNumber_def d(1) doy cfg firstWeekOffset_2021 weeksInYear_2020)
qed

theorem week_number_2021_01_01_witness:
  "firstDayOfWeek (rowProps 0 1 4 None) = 1 \<and> rulesForFirstWeek (rowProps 0 1 4 None) = 4 \<and>
   getFullYear (new_Date3 (Some 2021) (Some 0) (Some 1)) = Some 2021 \<and>
   getMonth (new_Date3 (Some 2021) (Some 0) (Some 1)) = Some 0 \<and>
   getDate (new_Date3 (Some 2021) (Some 0) (Some 1)) = Some 1 \<and>
   getWeekNumber (rowProps 0 1 4 None) (new_Date3 (Some 2021) (Some 0) (Some 1)) = Some 53"
proof -
  have j1: "new_Date3 (Some 2021) (Some 0) (Some 1) = Some 1609459200000"
    by (simp add: new_Date3_def new_Date_def TimeClip_def MakeDate_def MakeDay_def MakeTime_def
        DayFromYear_def DaysInYear_def monthStart_def msPerDay_def)
  have y: "YearFromTime 1609459200000 = 2021"
    by (simp add: YearFromTime_def YearFromDay_def Day_def msPerDay_def DayFromYear_def)
  have w: "DayWithinYear 1609459200000 = 0"
    by (simp add: DayWithinYear_def y) (simp add: Day_def msPerDay_def DayFromYear_def)
  have m: "MonthFromTime 1609459200000 = 0"
    by (simp add: MonthFromTime_def w Let_def)
  have dt: "DateFromTime 1609459200000 = 1"
    by (simp add: DateFromTime_def w m Let_def)
  have c: "firstDayOfWeek (rowProps 0 1 4 None) = 1" "rulesForFirstWeek (rowProps 0 1 4 None) = 4"
    by (simp_all add: rowProps_def)
  have g: "getFullYear (Some 1609459200000) = Some 2021" "getMonth (Some 1609459200000) = Some 0"
      "getDate (Some 1609459200000) = Some 1"
    by (simp_all add: getFullYear_def getMonth_def getDate_def y m dt)
  show ?thesis
    unfolding j1 using c g week_number_2021_01_01[OF c g] by simp
qed

section \<open>Selectable dates\<close>

lemma selectableDates_loop_match:
  "\<exists>e \<in> set ds. sameCalendarDay D e \<Longrightarrow> selectableDates_loop D ds v = Inl True"
  by (induction ds arbitrary: v) (auto simp: sameCalendarDay_def)

lemma selectableDates_loop_no_match:
  "\<forall>e \<in> set ds. \<not> sameCalendarDay D e \<Longrightarrow>
   selectableDates_loop D ds v = Inr (v @ replicate (length ds) False)"
proof (induction ds arbitrary: v)
  case Nil
  then show ?case by simp
next
  case (Cons e ds)
  then have "selectableDates_loop D (e # ds) v = selectableDates_loop D ds (v @ [False])"
    by (auto simp: sameCalendarDay_def)
  also have "\<dots> = Inr ((v @ [False]) @ replicate (length ds) False)"
    using Cons by simp
  finally show ?case by (simp add: replicate_app_Cons_same)
qed

text \<open>
  Claim C1. With a \<open>selectableDates\<close> list, a date whose calendar day (day, month and
  year) is that of some entry is selectable whatever the other constraints say, and,
  when the list is not empty, a date whose calendar day is that of no entry is not
  selectable whatever the other constraints say: every entry that does not match pushes
  \<open>false\<close> on the validity list.
\<close>

theorem selectableDate_allow_list:
  assumes "selectableDates p = Some ds"
  shows "((\<exists>e \<in> set ds. sameCalendarDay D e) \<longrightarrow> selectableDate p D) \<and>
         (ds \<noteq> [] \<and> (\<forall>e \<in> set ds. \<not> sameCalendarDay D2 e) \<longrightarrow> \<not> selectableDate p D2)"
proof (intro conjI impI)
  assume "\<exists>e \<in> set ds. sameCalendarDay D e"
  then show "selectableDate p D"
    using assms by (simp add: selectableDate_def Let_def selectableDates_loop_match)
next
  assume a: "ds \<noteq> [] \<and> (\<forall>e \<in> set ds. \<not> sameCalendarDay D2 e)"
  then have "False \<in> set (replicate (length ds) False)" by simp
  then show "\<not> selectableDate p D2"
    using assms a by (simp add: selectableDate_def Let_def selectableDates_loop_no_match)
qed


text \<open>
  The two halves at concrete props. 2021-03-10 is on the list and fails the minimum, the
  maximum, the month, the unselectable dates and the unselectable days of the week: it
  is selectable. 2021-03-17 is not on the list and passes all of them: it is not.
\<close>

theorem selectableDate_allow_list_witness:
  "(let D = new_Date3 (Some 2021) (Some 2) (Some 10);
        ds = [new_Date3 (Some 2021) (Some 2) (Some 31), D];
        p = (rowProps 5 0 4 None)
              \<lparr> minDate := Some (new_Date3 (Some 2021) (Some 3) (Some 1)),
                maxDate := Some (new_Date3 (Some 2021) (Some 2) (Some 1)),
                nearbyMonthDays := True, unselectableDates := Some [D],
                unselectableDaysOfWeek := Some [3], selectableDates := Some ds \<rparr>
    in selectableDates p = Some ds \<and> (\<exists>e \<in> set ds. sameCalendarDay D e) \<and>
       \<not> js_ge (getTime D) (getTime (the (minDate p))) \<and>
       \<not> js_le (getTime D) (getTime (the (maxDate p))) \<and>
       \<not> js_seq (getMonth D) (Some (month p)) \<and>
       js_seq (getDay D) (Some 3) \<and>
       selectableDate p D) \<and>
   (let D2 = new_Date3 (Some 2021) (Some 2) (Some 17);
        ds = [new_Date3 (Some 2021) (Some 2) (Some 10)];
        p = (rowProps 2 0 4 None)
              \<lparr> minDate := Some (new_Date3 (Some 2021) (Some 2) (Some 1)),
                maxDate := Some (new_Date3 (Some 2021) (Some 2) (Some 31)),
                nearbyMonthDays := True,
                unselectableDates := Some [new_Date3 (Some 2021) (Some 2) (Some 31)],
                unselectableDaysOfWeek := Some [0], selectableDates := Some ds \<rparr>
    in selectableDates p = Some ds \<and> ds \<noteq> [] \<and>
       \<not> sameCalendarDay D2 (new_Date3 (Some 2021) (Some 2) (Some 10)) \<and>
       js_ge (getTime D2) (getTime (the (minDate p))) \<and>
       js_le (getTime D2) (getTime (the (maxDate p))) \<and>
       js_seq (getMonth D2) (Some (month p)) \<and>
       \<not> sameCalendarDay D2 (new_Date3 (Some 2021) (Some 2) (Some 31)) \<and>
       \<not> js_seq (getDay D2) (Some 0) \<and>
       \<not> selectableDate p D2)"
proof -
  let ?D = "new_Date3 (Some 2021) (Some 2) (Some 10)"
  let ?ds = "[new_Date3 (Some 2021) (Some 2) (Some 31), ?D]"
  let ?p = "(rowProps 5 0 4 None)
              \<lparr> minDate := Some (new_Date3 (Some 2021) (Some 3) (Some 1)),
                maxDate := Some (new_Date3 (Some 2021) (Some 2) (Some 1)),
                nearbyMonthDays := True, unselectableDates := Some [?D],
                unselectableDaysOfWeek := Some [3], selectableDates := Some ?ds \<rparr>"
  let ?D2 = "new_Date3 (Some 2021) (Some 2) (Some 17)"
  let ?ds2 = "[new_Date3 (Some 2021) (Some 2) (Some 10)]"
  let ?p2 = "(rowProps 2 0 4 None)
              \<lparr> minDate := Some (new_Date3 (Some 2021) (Some 2) (Some 1)),
                maxDate := Some (new_Date3 (Some 2021) (Some 2) (Some 31)),
                nearbyMonthDays := True,
                unselectableDates := Some [new_Date3 (Some 2021) (Some 2) (Some 31)],
                unselectableDaysOfWeek := Some [0], selectableDates := Some ?ds2 \<rparr>"
  have h1: "selectableDates ?p = Some ?ds" by simp
  have h2: "\<exists>e \<in> set ?ds. sameCalendarDay ?D e" by code_simp
  have v: "\<not> js_ge (getTime ?D) (getTime (the (minDate ?p)))"
      "\<not> js_le (getTime ?D) (getTime (the (maxDate ?p)))"
      "\<not> js_seq (getMonth ?D) (Some (month ?p))" "js_seq (getDay ?D) (Some 3)"
    by code_simp+
  have k1: "selectableDates ?p2 = Some ?ds2" by simp
  have k2: "?ds2 \<noteq> []" by simp
  have k3: "\<not> sameCalendarDay ?D2 (new_Date3 (Some 2021) (Some 2) (Some 10))" by code_simp
  have w: "js_ge (getTime ?D2) (getTime (the (minDate ?p2)))"
      "js_le (getTime ?D2) (getTime (the (maxDate ?p2)))"
      "js_seq (getMonth ?D2) (Some (month ?p2))"
      "\<not> sameCalendarDay ?D2 (new_Date3 (Some 2021) (Some 2) (Some 31))"
      "\<not> js_seq (getDay ?D2) (Some 0)"
    by code_simp+
  have c1: "selectableDate ?p ?D"
    using selectableDate_allow_list[OF h1, of ?D ?D] h2 by blast
  have c2: "\<not> selectableDate ?p2 ?D2"
    using selectableDate_allow_list[OF k1, of ?D2 ?D2] k3 by simp
  show ?thesis
    unfolding Let_def by (intro conjI h1 h2 v k1 k2 k3 w c1 c2)
qed

section \<open>Events of a cell\<close>

text \<open>
  Claim C6. With a non-empty \<open>events\<close> list, the events that \<open>eventsDateMatch\<close> returns
  for a cell (none when it returns \<open>false\<close>) are exactly the events whose date has the
  day of the week of the cell's date, in the order of the list; the rest of the calendar
  date plays no part. So an event whose date is on week day \<open>w\<close> is returned for every
  cell on week day \<open>w\<close>.
\<close>

theorem eventsDateMatch_by_weekday:
  assumes "events p = Some evs" "evs \<noteq> []"
  shows "(case eventsDateMatch p D of None \<Rightarrow> [] | Some es \<Rightarrow> es) =
           filter (\<lambda>e. js_seq (getDay (date e)) (getDay D)) evs \<and>
         (eventsDateMatch p D = None \<longleftrightarrow>
           filter (\<lambda>e. js_seq (getDay (date e)) (getDay D)) evs = []) \<and>
         (\<forall>e w. e \<in> set evs \<and> getDay (date e) = Some w \<and> getDay D = Some w \<longrightarrow>
           (\<exists>es. eventsDateMatch p D = Some es \<and> e \<in> set es))"
proof -
  let ?m = "filter (\<lambda>e. js_seq (getDay (date e)) (getDay D)) evs"
  have r: "eventsDateMatch p D = (if ?m = [] then None else Some ?m)"
    using assms by (simp add: eventsDateMatch_def Let_def)
  have "\<exists>es. eventsDateMatch p D = Some es \<and> e \<in> set es"
    if "e \<in> set evs" "getDay (date e) = Some w" "getDay D = Some w" for e w
  proof -
    have e: "e \<in> set ?m" using that by (simp add: js_seq_def)
    then have "?m \<noteq> []" by (metis empty_iff empty_set)
    then show ?thesis unfolding r using e by simp
  qed
  moreover have "(case eventsDateMatch p D of None \<Rightarrow> [] | Some es \<Rightarrow> es) = ?m"
    unfolding r by simp
  moreover have "eventsDateMatch p D = None \<longleftrightarrow> ?m = []"
    unfolding r by simp
  ultimately show ?thesis by blast
qed

text \<open>
  An event dated Tuesday 2021-03-09 and one dated Friday 2021-03-12: the cell of Tuesday
  2021-03-16, another calendar date, gets the first event.
\<close>

theorem eventsDateMatch_by_weekday_witness:
  "(let tue = \<lparr> date = new_Date3 (Some 2021) (Some 2) (Some 9), etype = None \<rparr>;
        fri = \<lparr> date = new_Date3 (Some 2021) (Some 2) (Some 12), etype = None \<rparr>;
        p = (rowProps 2 0 4 None) \<lparr> events := Some [tue, fri] \<rparr>;
        D = new_Date3 (Some 2021) (Some 2) (Some 16)
    in events p = Some [tue, fri] \<and> [tue, fri] \<noteq> [] \<and>
       getDay (date tue) = Some 2 \<and> getDay D = Some 2 \<and> \<not> sameCalendarDay (date tue) D \<and>
       eventsDateMatch p D = Some [tue])"
proof -
  let ?tue = "\<lparr> date = new_Date3 (Some 2021) (Some 2) (Some 9), etype = None \<rparr>"
  let ?fri = "\<lparr> date = new_Date3 (Some 2021) (Some 2) (Some 12), etype = None \<rparr>"
  let ?p = "(rowProps 2 0 4 None) \<lparr> events := Some [?tue, ?fri] \<rparr>"
  let ?D = "new_Date3 (Some 2021) (Some 2) (Some 16)"
  have h: "events ?p = Some [?tue, ?fri]" "[?tue, ?fri] \<noteq> []" by simp_all
  have g: "getDay (date ?tue) = Some 2" "getDay ?D = Some 2" "\<not> sameCalendarDay (date ?tue) ?D"
    by code_simp+
  have f: "filter (\<lambda>e. js_seq (getDay (date e)) (getDay ?D)) [?tue, ?fri] = [?tue]"
    by code_simp
  have "eventsDateMatch ?p ?D = Some [?tue]"
    using eventsDateMatch_by_weekday[OF h, of ?D] unfolding f
    by (cases "eventsDateMatch ?p ?D") simp_all
  then show ?thesis
    unfolding Let_def using h g by blast
qed

section \<open>Classes of a cell\<close>

lemma sameCalendarDay_refl: "sameCalendarDay (Some t) (Some t)"
  by (simp add: sameCalendarDay_def js_seq_def getDate_def getFullYear_def getMonth_def)

text \<open>Two Dates with the same year, month and day of the month are on the same day.\<close>

lemma sameCalendarDay_Day:
  assumes "sameCalendarDay (Some a) (Some b)"
  shows "Day a = Day b"
proof -
  from assms have y: "YearFromTime a = YearFromTime b" and m: "MonthFromTime a = MonthFromTime b"
    and d: "DateFromTime a = DateFromTime b"
    by (simp_all add: sameCalendarDay_def js_seq_def getDate_def getFullYear_def getMonth_def)
  have l: "InLeapYear a = InLeapYear b" by (simp add: InLeapYear_def y)
  have "DayWithinYear a = DayWithinYear b"
    using d unfolding DateFromTime_def Let_def m l by (simp split: if_splits)
  then show ?thesis by (simp add: DayWithinYear_def y)
qed

lemma sameCalendarDay_same_time:
  assumes "sameCalendarDay D E" "map_option TimeWithinDay D = map_option TimeWithinDay E"
  shows "D = E"
proof -
  from assms(1) obtain a b where ab: "D = Some a" "E = Some b"
    by (cases D; cases E) (simp_all add: sameCalendarDay_def js_seq_def getDate_def)
  have "Day a = Day b" using assms(1) unfolding ab by (rule sameCalendarDay_Day)
  moreover have "TimeWithinDay a = TimeWithinDay b" using assms(2) by (simp add: ab)
  ultimately have "a = b" using time_split[of a] time_split[of b] by simp
  then show ?thesis by (simp add: ab)
qed


text \<open>
  Claim C8, as stated: the endpoints of the range get the first-selected and
  last-selected class by calendar-day equality and are not flagged as within. It fails
  for the range from 2021-03-10 00:00 to 2021-03-17 12:00: the cell of 2021-03-17 00:00 is
  on the calendar day of the end, gets the last-selected class, and is within as well,
  because it is earlier than the end.
\<close>

theorem cellClasses_endpoint_within:
  "(let s = new_Date3 (Some 2021) (Some 2) (Some 10);
        e = new_Date5 (Some 2021) (Some 2) (Some 17) (Some 12) (Some 0);
        D = new_Date3 (Some 2021) (Some 2) (Some 17);
        p = (rowProps 2 0 4 None) \<lparr> selectedDate := Dates [s, e] \<rparr>
    in selectedDate p = Dates [s, e] \<and> \<not> multiple p \<and> sameCalendarDay D e \<and>
       tableCellLastSelectedClass (cellClasses p D) \<and>
       tableCellWithinSelectedClass (cellClasses p D) \<and>
       tableCellSelectedClass (cellClasses p D) \<and>
       \<not> tableCellFirstSelectedClass (cellClasses p D))"
  by code_simp

text \<open>
  Claim C8, amended. With a range selection \<open>selectedDate = [start, end]\<close> and \<open>multiple\<close>
  false: the within-selected class is on for a date exactly when it is later than
  \<open>start\<close> and earlier than \<open>end\<close> (strict comparisons of the Dates); the first-selected
  and last-selected classes are on exactly for the calendar day of \<open>start\<close> and of
  \<open>end\<close>; a date on the calendar day of an endpoint and at the same time of day as that
  endpoint, so \<open>start\<close> and \<open>end\<close> themselves, is not within (at another time of day it
  can be); \<open>start\<close> and \<open>end\<close> themselves get the first-selected and last-selected
  class; and the selected class is on exactly when the date matches the calendar day of
  an endpoint or is within the range.
\<close>

theorem cellClasses_range_selection:
  assumes "selectedDate p = Dates [start, end]" "\<not> multiple p"
  shows "tableCellWithinSelectedClass (cellClasses p D) =
           (js_gt (getTime D) (getTime start) \<and> js_lt (getTime D) (getTime end)) \<and>
         tableCellFirstSelectedClass (cellClasses p D) = sameCalendarDay D start \<and>
         tableCellLastSelectedClass (cellClasses p D) = sameCalendarDay D end \<and>
         tableCellSelectedClass (cellClasses p D) =
           (sameCalendarDay D start \<or> sameCalendarDay D end \<or>
            (js_gt (getTime D) (getTime start) \<and> js_lt (getTime D) (getTime end))) \<and>
         (sameCalendarDay D start \<and> map_option TimeWithinDay D = map_option TimeWithinDay start
            \<longrightarrow> \<not> tableCellWithinSelectedClass (cellClasses p D)) \<and>
         (sameCalendarDay D end \<and> map_option TimeWithinDay D = map_option TimeWithinDay end
            \<longrightarrow> \<not> tableCellWithinSelectedClass (cellClasses p D)) \<and>
         \<not> tableCellWithinSelectedClass (cellClasses p start) \<and>
         \<not> tableCellWithinSelectedClass (cellClasses p end) \<and>
         (start \<noteq> None \<longrightarrow> tableCellFirstSelectedClass (cellClasses p start)) \<and>
         (end \<noteq> None \<longrightarrow> tableCellLastSelectedClass (cellClasses p end))"
proof -
  have w: "dateWithin d (selectedDate p) (multiple p) =
             (js_gt (getTime d) (getTime start) \<and> js_lt (getTime d) (getTime end))" for d
    using assms by (simp add: dateWithin_def timeAt_def)
  have f: "dateMatch d (element (selectedDate p) 0) (multiple p) = sameCalendarDay d start" for d
    using assms by (simp add: dateMatch_def element_def sameCalendarDay_def)
  have l: "dateMatch d (element (selectedDate p) (Suc 0)) (multiple p) = sameCalendarDay d end"
    for d
    using assms by (simp add: dateMatch_def element_def sameCalendarDay_def)
  have s: "dateMatch d (selectedDate p) False = (sameCalendarDay d start \<or> sameCalendarDay d end)"
    for d
    using assms by (simp add: dateMatch_def sameCalendarDay_def)
  have n: "\<not> js_gt (getTime d) (getTime d)" "\<not> js_lt (getTime d) (getTime d)" for d
    by (simp_all add: js_gt_def js_lt_def split: option.splits)
  have r: "d \<noteq> None \<Longrightarrow> sameCalendarDay d d" for d
    using sameCalendarDay_refl by auto
  have e1: "\<not> js_gt (getTime D) (getTime start)"
    if "sameCalendarDay D start \<and> map_option TimeWithinDay D = map_option TimeWithinDay start"
    using sameCalendarDay_same_time[of D start] that n(1)[of D] by auto
  have e2: "\<not> js_lt (getTime D) (getTime end)"
    if "sameCalendarDay D end \<and> map_option TimeWithinDay D = map_option TimeWithinDay end"
    using sameCalendarDay_same_time[of D "end"] that n(2)[of D] by auto
  show ?thesis
    using e1 e2 by (simp add: cellClasses_def w f l s n r)
qed

text \<open>
  The range from 2021-03-10 00:00 to 2021-03-17 12:00: the cell of 2021-03-12 is within
  and selected, and neither first nor last; the cell of 2021-03-10 00:00 is first and
  selected, and not within; the Date 2021-03-17 12:00 is last, and not within.
\<close>

theorem cellClasses_range_selection_witness:
  "(let s = new_Date3 (Some 2021) (Some 2) (Some 10);
        e = new_Date5 (Some 2021) (Some 2) (Some 17) (Some 12) (Some 0);
        D = new_Date3 (Some 2021) (Some 2) (Some 12);
        p = (rowProps 2 0 4 None) \<lparr> selectedDate := Dates [s, e] \<rparr>
    in selectedDate p = Dates [s, e] \<and> \<not> multiple p \<and> s \<noteq> None \<and> e \<noteq> None \<and>
       tableCellWithinSelectedClass (cellClasses p D) \<and>
       tableCellSelectedClass (cellClasses p D) \<and>
       \<not> tableCellFirstSelectedClass (cellClasses p D) \<and>
       \<not> tableCellLastSelectedClass (cellClasses p D) \<and>
       sameCalendarDay s s \<and> map_option TimeWithinDay s = map_option TimeWithinDay s \<and>
       tableCellFirstSelectedClass (cellClasses p s) \<and>
       tableCellSelectedClass (cellClasses p s) \<and>
       \<not> tableCellWithinSelectedClass (cellClasses p s) \<and>
       sameCalendarDay e e \<and>
       tableCellLastSelectedClass (cellClasses p e) \<and>
       \<not> tableCellWithinSelectedClass (cellClasses p e))"
proof -
  let ?s = "new_Date3 (Some 2021) (Some 2) (Some 10)"
  let ?e = "new_Date5 (Some 2021) (Some 2) (Some 17) (Some 12) (Some 0)"
  let ?D = "new_Date3 (Some 2021) (Some 2) (Some 12)"
  let ?p = "(rowProps 2 0 4 None) \<lparr> selectedDate := Dates [?s, ?e] \<rparr>"
  have h: "selectedDate ?p = Dates [?s, ?e]" "\<not> multiple ?p"
    by (simp_all add: rowProps_def)
  have v: "?s \<noteq> None" "?e \<noteq> None" by code_simp+
  have c: "js_gt (getTime ?D) (getTime ?s)" "js_lt (getTime ?D) (getTime ?e)"
      "\<not> sameCalendarDay ?D ?s" "\<not> sameCalendarDay ?D ?e" "sameCalendarDay ?s ?s"
      "sameCalendarDay ?e ?e"
    by code_simp+
  show ?thesis
    unfolding Let_def
    using cellClasses_range_selection[OF h, of ?D] cellClasses_range_selection[OF h, of ?s]
      cellClasses_range_selection[OF h, of ?e] h v c
    by simp
qed

section \<open>The native picker of the date and time picker\<close>

lemma split_nondigit_not_Nil: "split_nondigit s \<noteq> []"
  by (induction s) (auto split: list.splits)

lemma length_split_nondigit:
  "length (split_nondigit s) = Suc (length (filter (\<lambda>c. \<not> isDigit c) s))"
proof (induction s)
  case Nil
  then show ?case by simp
next
  case (Cons c cs)
  then show ?case
    using split_nondigit_not_Nil[of cs] by (cases "split_nondigit cs") auto
qed

lemma length_ge_five:
  "5 \<le> length xs \<Longrightarrow> \<exists>a b c d e rest. xs = a # b # c # d # e # rest"
  by (auto simp: numeral_eq_Suc Suc_le_length_iff)

lemma computedValue_set_null: "computedValue_set dp None = (dp\<lparr>newValue := None\<rparr>, None)"
  by (simp add: computedValue_set_def)

lemma split_nondigit_digits:
  "t \<in> set (split_nondigit s) \<Longrightarrow> c \<in> set t \<Longrightarrow> isDigit c"
proof (induction s arbitrary: t)
  case Nil
  then show ?case by simp
next
  case (Cons a s)
  show ?case
  proof (cases "isDigit a")
    case True
    obtain u us where u: "split_nondigit s = u # us"
      using split_nondigit_not_Nil[of s] by (cases "split_nondigit s") auto
    from Cons.prems(1) True u have "t = a # u \<or> t \<in> set us" by simp
    then show ?thesis
    proof
      assume "t = a # u"
      then show ?thesis using Cons.prems(2) True Cons.IH[of u] u by auto
    next
      assume "t \<in> set us"
      then show ?thesis using Cons.IH[of t] Cons.prems(2) u by simp
    qed
  next
    case False
    then have "t = [] \<or> t \<in> set (split_nondigit s)" using Cons.prems(1) by simp
    then show ?thesis using Cons.IH[of t] Cons.prems(2) by auto
  qed
qed

lemma foldl_digits_nonneg:
  "0 \<le> a \<Longrightarrow> \<forall>c \<in> set ds. isDigit c \<Longrightarrow>
   0 \<le> foldl (\<lambda>a c. 10 * a + (int (of_char c) - 48)) a ds"
proof (induction ds arbitrary: a)
  case Nil
  then show ?case by simp
next
  case (Cons d ds)
  then have "48 \<le> (of_char d :: nat)" by (simp add: isDigit_def)
  then have "0 \<le> 10 * a + (int (of_char d) - 48)" using Cons.prems(1) by simp
  then show ?case using Cons by simp
qed

lemma parseInt10_token:
  assumes "\<forall>c \<in> set t. isDigit c"
  shows "t = [] \<Longrightarrow> parseInt10 t = None"
    and "t \<noteq> [] \<Longrightarrow> \<exists>n. parseInt10 t = Some n \<and> 0 \<le> n"
proof -
  have tw: "takeWhile isDigit t = t" using assms by (simp add: takeWhile_eq_all_conv)
  show "t = [] \<Longrightarrow> parseInt10 t = None" by (simp add: parseInt10_def)
  show "t \<noteq> [] \<Longrightarrow> \<exists>n. parseInt10 t = Some n \<and> 0 \<le> n"
    using foldl_digits_nonneg[of 0 t] assms by (simp add: parseInt10_def tw)
qed


text \<open>
  Claim C9, as stated: when the split yields fewer than 5 numeric tokens, the value is set
  to \<open>null\<close>. It fails for the string \<open>abcd\<close>, which has no numeric token, and for
  \<open>2021-03-04T10:\<close>, which has four: each has five pieces, the last ones empty, so a
  Date is constructed, and the picker stores and emits an Invalid Date, not \<open>null\<close>.
\<close>

theorem onChangeNativePicker_not_null:
  "(let dp = \<lparr> newValue = None, minDatetime = None, maxDatetime = None,
               datetimeCreator = (\<lambda>d. d) \<rparr>
    in numericTokens ''abcd'' = [] \<and>
       length (split_nondigit ''abcd'') = 5 \<and>
       onChangeNativePicker dp ''abcd'' = (dp\<lparr>newValue := Some None\<rparr>, Some None) \<and>
       numericTokens ''2021-03-04T10:'' = [''2021'', ''03'', ''04'', ''10''] \<and>
       length (numericTokens ''2021-03-04T10:'') < 5 \<and>
       length (split_nondigit ''2021-03-04T10:'') = 5 \<and>
       onChangeNativePicker dp ''2021-03-04T10:'' = (dp\<lparr>newValue := Some None\<rparr>, Some None))"
proof -
  let ?dp = "\<lparr> newValue = None, minDatetime = None, maxDatetime = None,
               datetimeCreator = (\<lambda>d. d) \<rparr>"
  have n1: "numericTokens ''abcd'' = []" by code_simp
  have s1: "split_nondigit ''abcd'' = [[], [], [], [], []]" by code_simp
  have n2: "numericTokens ''2021-03-04T10:'' = [''2021'', ''03'', ''04'', ''10'']" by code_simp
  have s2: "split_nondigit ''2021-03-04T10:'' = [''2021'', ''03'', ''04'', ''10'', []]"
    by code_simp
  have p: "parseInt10 [] = None" by (simp add: parseInt10_def)
  have c: "computedValue_set ?dp (Some None) = (?dp\<lparr>newValue := Some None\<rparr>, Some None)"
    by (simp add: computedValue_set_def Let_def restoreTimePart_def checkRange_def
        copy_Date_def)
  have r1: "onChangeNativePicker ?dp ''abcd'' = (?dp\<lparr>newValue := Some None\<rparr>, Some None)"
    unfolding onChangeNativePicker_def Let_def s1
    using c by (simp add: p new_Date5_def new_Date_def)
  have r2: "onChangeNativePicker ?dp ''2021-03-04T10:'' = (?dp\<lparr>newValue := Some None\<rparr>, Some None)"
    unfolding onChangeNativePicker_def Let_def s2
    using c by (simp add: p new_Date5_def new_Date_def split: option.splits)
  have l1: "length (split_nondigit ''abcd'') = 5" unfolding s1 by simp
  have l2: "length (split_nondigit ''2021-03-04T10:'') = 5" unfolding s2 by simp
  have l3: "length (numericTokens ''2021-03-04T10:'') < 5" unfolding n2 by simp
  show ?thesis
    unfolding Let_def by (intro conjI n1 l1 r1 n2 l3 l2 r2)
qed

text \<open>
  Claim C9, amended. When the input string has fewer than 4 non-digit characters, so
  that its split at the non-digit characters has fewer than 5 pieces, empty ones
  counted, \<open>onChangeNativePicker\<close> sets the value to \<open>null\<close> (and emits \<open>null\<close>); it
  always returns. When the string has 4 non-digit characters or more, the split has 5
  pieces or more and the picker assigns the Date constructed from the first five: the
  year, the month minus 1, the day, the hours and the minutes. The value it stores and
  emits is then not \<open>null\<close>. The assigned Date is an Invalid Date when one of the five
  pieces is empty; otherwise the five numbers are the decimal values of the pieces.
\<close>

theorem onChangeNativePicker_tokens:
  "(length (filter (\<lambda>c. \<not> isDigit c) s) < 4 \<longrightarrow>
      length (split_nondigit s) < 5 \<and>
      onChangeNativePicker dp s = (dp\<lparr>newValue := None\<rparr>, None)) \<and>
   (4 \<le> length (filter (\<lambda>c. \<not> isDigit c) s) \<longrightarrow>
      (\<exists>year month day hours minutes rest.
         split_nondigit s = year # month # day # hours # minutes # rest \<and>
         onChangeNativePicker dp s =
           computedValue_set dp
             (Some (new_Date5 (parseInt10 year) (js_sub (parseInt10 month) (Some 1))
                      (parseInt10 day) (parseInt10 hours) (parseInt10 minutes))) \<and>
         newValue (fst (onChangeNativePicker dp s)) \<noteq> None \<and>
         snd (onChangeNativePicker dp s) \<noteq> None \<and>
         (year = [] \<or> month = [] \<or> day = [] \<or> hours = [] \<or> minutes = [] \<longrightarrow>
            new_Date5 (parseInt10 year) (js_sub (parseInt10 month) (Some 1))
              (parseInt10 day) (parseInt10 hours) (parseInt10 minutes) = None) \<and>
         (year \<noteq> [] \<and> month \<noteq> [] \<and> day \<noteq> [] \<and> hours \<noteq> [] \<and> minutes \<noteq> [] \<longrightarrow>
            (\<exists>y mo d h mi. parseInt10 year = Some y \<and> parseInt10 month = Some mo \<and>
               parseInt10 day = Some d \<and> parseInt10 hours = Some h \<and>
               parseInt10 minutes = Some mi \<and> 0 \<le> y \<and> 0 \<le> mo \<and> 0 \<le> d \<and> 0 \<le> h \<and>
               0 \<le> mi))))"
proof (intro conjI impI)
  assume "length (filter (\<lambda>c. \<not> isDigit c) s) < 4"
  then show "length (split_nondigit s) < 5" by (simp add: length_split_nondigit)
  then show "onChangeNativePicker dp s = (dp\<lparr>newValue := None\<rparr>, None)"
    by (simp add: onChangeNativePicker_def Let_def computedValue_set_null)
next
  assume "4 \<le> length (filter (\<lambda>c. \<not> isDigit c) s)"
  then have l: "5 \<le> length (split_nondigit s)" by (simp add: length_split_nondigit)
  then have ne: "s \<noteq> []" by auto
  from l obtain a b c d e rest where t: "split_nondigit s = a # b # c # d # e # rest"
    using length_ge_five by blast
  let ?v = "new_Date5 (parseInt10 a) (js_sub (parseInt10 b) (Some 1)) (parseInt10 c)
              (parseInt10 d) (parseInt10 e)"
  have r: "onChangeNativePicker dp s = computedValue_set dp (Some ?v)"
    using t ne by (simp add: onChangeNativePicker_def Let_def)
  have nn: "newValue (fst (onChangeNativePicker dp s)) \<noteq> None"
      "snd (onChangeNativePicker dp s) \<noteq> None"
    unfolding r by (simp_all add: computedValue_set_def Let_def)
  have dg: "\<forall>x \<in> set u. isDigit x" if "u \<in> {a, b, c, d, e}" for u
    using that split_nondigit_digits[of u s] t by auto
  have pn: "parseInt10 [] = None" by (simp add: parseInt10_def)
  have inv: "?v = None" if "a = [] \<or> b = [] \<or> c = [] \<or> d = [] \<or> e = []"
    using that by (auto simp: pn new_Date5_def new_Date_def js_sub_def split: option.splits)
  have val: "\<exists>y mo d' h mi. parseInt10 a = Some y \<and> parseInt10 b = Some mo \<and>
               parseInt10 c = Some d' \<and> parseInt10 d = Some h \<and>
               parseInt10 e = Some mi \<and> 0 \<le> y \<and> 0 \<le> mo \<and> 0 \<le> d' \<and> 0 \<le> h \<and> 0 \<le> mi"
    if "a \<noteq> [] \<and> b \<noteq> [] \<and> c \<noteq> [] \<and> d \<noteq> [] \<and> e \<noteq> []"
    using that parseInt10_token(2)[OF dg[of a]] parseInt10_token(2)[OF dg[of b]]
      parseInt10_token(2)[OF dg[of c]] parseInt10_token(2)[OF dg[of d]]
      parseInt10_token(2)[OF dg[of e]]
    by auto
  show "\<exists>year month day hours minutes rest.
         split_nondigit s = year # month # day # hours # minutes # rest \<and>
         onChangeNativePicker dp s =
           computedValue_set dp
             (Some (new_Date5 (parseInt10 year) (js_sub (parseInt10 month) (Some 1))
                      (parseInt10 day) (parseInt10 hours) (parseInt10 minutes))) \<and>
         newValue (fst (onChangeNativePicker dp s)) \<noteq> None \<and>
         snd (onChangeNativePicker dp s) \<noteq> None \<and>
         (year = [] \<or> month = [] \<or> day = [] \<or> hours = [] \<or> minutes = [] \<longrightarrow>
            new_Date5 (parseInt10 year) (js_sub (parseInt10 month) (Some 1))
              (parseInt10 day) (parseInt10 hours) (parseInt10 minutes) = None) \<and>
         (year \<noteq> [] \<and> month \<noteq> [] \<and> day \<noteq> [] \<and> hours \<noteq> [] \<and> minutes \<noteq> [] \<longrightarrow>
            (\<exists>y mo d h mi. parseInt10 year = Some y \<and> parseInt10 month = Some mo \<and>
               parseInt10 day = Some d \<and> parseInt10 hours = Some h \<and>
               parseInt10 minutes = Some mi \<and> 0 \<le> y \<and> 0 \<le> mo \<and> 0 \<le> d \<and> 0 \<le> h \<and>
               0 \<le> mi))"
    using t r nn inv val by (intro exI[of _ a] exI[of _ b] exI[of _ c] exI[of _ d] exI[of _ e]
        exI[of _ rest]) blast
qed


text \<open>
  A picker with no current value and no bounds, whose \<open>datetimeCreator\<close> returns its
  argument: the string \<open>2021-03\<close> has one non-digit character and gives \<open>null\<close>; the
  string \<open>2021-03-04T10:30\<close> has four and gives the Date of 4 March 2021, 10:30.
\<close>

theorem onChangeNativePicker_tokens_witness:
  "(let dp = \<lparr> newValue = None, minDatetime = None, maxDatetime = None,
               datetimeCreator = (\<lambda>d. d) \<rparr>;
        d = new_Date5 (Some 2021) (Some 2) (Some 4) (Some 10) (Some 30)
    in length (filter (\<lambda>c. \<not> isDigit c) ''2021-03'') < 4 \<and>
       onChangeNativePicker dp ''2021-03'' = (dp\<lparr>newValue := None\<rparr>, None) \<and>
       4 \<le> length (filter (\<lambda>c. \<not> isDigit c) ''2021-03-04T10:30'') \<and>
       d = Some 1614853800000 \<and>
       onChangeNativePicker dp ''2021-03-04T10:30'' = (dp\<lparr>newValue := Some d\<rparr>, Some d))"
proof -
  let ?dp = "\<lparr> newValue = None, minDatetime = None, maxDatetime = None,
               datetimeCreator = (\<lambda>d. d) \<rparr>"
  let ?d = "new_Date5 (Some 2021) (Some 2) (Some 4) (Some 10) (Some 30)"
  have s1: "length (filter (\<lambda>c. \<not> isDigit c) ''2021-03'') < 4" by code_simp
  have s2: "split_nondigit ''2021-03-04T10:30'' = [''2021'', ''03'', ''04'', ''10'', ''30'']"
    by code_simp
  have s3: "4 \<le> length (filter (\<lambda>c. \<not> isDigit c) ''2021-03-04T10:30'')" by code_simp
  have p: "parseInt10 ''2021'' = Some 2021" "js_sub (parseInt10 ''03'') (Some 1) = Some 2"
      "parseInt10 ''04'' = Some 4" "parseInt10 ''10'' = Some 10" "parseInt10 ''30'' = Some 30"
    by code_simp+
  have d: "?d = Some 1614853800000" by code_simp
  have c: "computedValue_set ?dp (Some ?d) = (?dp\<lparr>newValue := Some ?d\<rparr>, Some ?d)"
    unfolding d
    by (simp add: computedValue_set_def Let_def restoreTimePart_def checkRange_def
        copy_Date_def TimeClip_def)
  have r1: "onChangeNativePicker ?dp ''2021-03'' = (?dp\<lparr>newValue := None\<rparr>, None)"
    using onChangeNativePicker_tokens[of "''2021-03''" ?dp] s1 by blast
  from onChangeNativePicker_tokens[of "''2021-03-04T10:30''" ?dp] s3
  obtain year month day hours minutes rest where
    t: "split_nondigit ''2021-03-04T10:30'' = year # month # day # hours # minutes # rest"
    and r: "onChangeNativePicker ?dp ''2021-03-04T10:30'' =
           computedValue_set ?dp
             (Some (new_Date5 (parseInt10 year) (js_sub (parseInt10 month) (Some 1))
                      (parseInt10 day) (parseInt10 hours) (parseInt10 minutes)))"
    by blast
  from t have "year = ''2021''" "month = ''03''" "day = ''04''" "hours = ''10''" "minutes = ''30''"
    unfolding s2 by simp_all
  then have r2: "onChangeNativePicker ?dp ''2021-03-04T10:30'' = (?dp\<lparr>newValue := Some ?d\<rparr>, Some ?d)"
    using r c by (simp add: p)
  show ?thesis
    unfolding Let_def by (intro conjI s1 r1 s3 d r2)
qed

section \<open>The setter of the date and time picker\<close>

lemma copy_Date_valid: "validDate d \<Longrightarrow> copy_Date d = d"
  by (cases d) (simp_all add: validDate_def copy_Date_def TimeClip_def)

lemma checkRange_clamps:
  assumes val: "validDate val"
    and mn: "\<forall>m. minDatetime dp = Some m \<longrightarrow> validDate m"
    and mx: "\<forall>M. maxDatetime dp = Some M \<longrightarrow> validDate M"
    and ord: "\<forall>m M. minDatetime dp = Some m \<and> maxDatetime dp = Some M \<longrightarrow>
                js_le (getTime m) (getTime M)"
  shows "validDate (checkRange dp val)"
    and "minDatetime dp = Some m \<Longrightarrow> js_ge (getTime (checkRange dp val)) (getTime m)"
    and "minDatetime dp = Some m \<Longrightarrow> js_lt (getTime val) (getTime m) \<Longrightarrow> checkRange dp val = m"
    and "maxDatetime dp = Some M \<Longrightarrow> js_le (getTime (checkRange dp val)) (getTime M)"
    and "maxDatetime dp = Some M \<Longrightarrow> js_gt (getTime val) (getTime M) \<Longrightarrow> checkRange dp val = M"
    and "(\<forall>m. minDatetime dp = Some m \<longrightarrow> \<not> js_lt (getTime val) (getTime m)) \<Longrightarrow>
         (\<forall>M. maxDatetime dp = Some M \<longrightarrow> \<not> js_gt (getTime val) (getTime M)) \<Longrightarrow>
         checkRange dp val = val"
proof -
  obtain t where t: "val = Some t" using val by (cases val) (simp_all add: validDate_def)
  show "validDate (checkRange dp val)"
    using val mn mx by (auto simp: checkRange_def split: option.splits)
  show "js_ge (getTime (checkRange dp val)) (getTime m)" if "minDatetime dp = Some m"
  proof -
    from mn that have "validDate m" by blast
    then obtain a where a: "m = Some a" by (cases m) (simp_all add: validDate_def)
    show ?thesis
      using that ord mx
      by (auto simp: checkRange_def t a js_ge_def js_le_def js_lt_def js_gt_def getTime_def
          validDate_def split: option.splits)
  qed
  show "checkRange dp val = m" if "minDatetime dp = Some m" "js_lt (getTime val) (getTime m)"
    using that by (simp add: checkRange_def)
  show "js_le (getTime (checkRange dp val)) (getTime M)" if "maxDatetime dp = Some M"
  proof -
    from mx that have "validDate M" by blast
    then obtain b where b: "M = Some b" by (cases M) (simp_all add: validDate_def)
    show ?thesis
      using that ord mn
      by (auto simp: checkRange_def t b js_ge_def js_le_def js_lt_def js_gt_def getTime_def
          validDate_def split: option.splits)
  qed
  show "checkRange dp val = M" if "maxDatetime dp = Some M" "js_gt (getTime val) (getTime M)"
  proof -
    from mx that have "validDate M" by blast
    then obtain b where b: "M = Some b" by (cases M) (simp_all add: validDate_def)
    show ?thesis
      using that ord
      by (auto simp: checkRange_def t b js_le_def js_lt_def js_gt_def getTime_def
          split: option.splits)
  qed
  show "checkRange dp val = val"
    if "\<forall>m. minDatetime dp = Some m \<longrightarrow> \<not> js_lt (getTime val) (getTime m)"
       "\<forall>M. maxDatetime dp = Some M \<longrightarrow> \<not> js_gt (getTime val) (getTime M)"
    using that by (auto simp: checkRange_def split: option.splits)
qed


text \<open>
  Claim C10, as stated: whenever a Date is assigned through the setter, the stored value
  is the value clamped into the interval: a value below \<open>minDatetime\<close> is replaced by
  \<open>minDatetime\<close>, and the stored value never lies outside the bounds. It fails with the
  bounds 2021-03-10 08:00 and 2021-03-20 18:00. When the current value is 2021-03-09
  10:30 and 2021-03-10 00:00 is assigned, which is below the minimum, the time part is
  restored first and 2021-03-10 10:30 is stored, not the minimum. When the current
  value is an Invalid Date and 2021-03-05 00:00 is assigned, the restored time part is
  NaN and an Invalid Date is stored, which is not within the bounds.
\<close>

theorem computedValue_set_not_clamped:
  "(let mn = new_Date5 (Some 2021) (Some 2) (Some 10) (Some 8) (Some 0);
        mx = new_Date5 (Some 2021) (Some 2) (Some 20) (Some 18) (Some 0);
        cur = new_Date5 (Some 2021) (Some 2) (Some 9) (Some 10) (Some 30);
        dp = \<lparr> newValue = Some cur, minDatetime = Some mn, maxDatetime = Some mx,
               datetimeCreator = (\<lambda>d. d) \<rparr>;
        v = new_Date3 (Some 2021) (Some 2) (Some 10);
        stored = new_Date5 (Some 2021) (Some 2) (Some 10) (Some 10) (Some 30);
        dp' = \<lparr> newValue = Some None, minDatetime = Some mn, maxDatetime = Some mx,
                datetimeCreator = (\<lambda>d. d) \<rparr>;
        v' = new_Date3 (Some 2021) (Some 2) (Some 5)
    in js_le (getTime mn) (getTime mx) \<and> validDate v \<and> js_lt (getTime v) (getTime mn) \<and>
       computedValue_set dp (Some v) = (dp\<lparr>newValue := Some stored\<rparr>, Some stored) \<and>
       stored \<noteq> mn \<and>
       validDate v' \<and> js_lt (getTime v') (getTime mn) \<and>
       computedValue_set dp' (Some v') = (dp'\<lparr>newValue := Some None\<rparr>, Some None) \<and>
       \<not> js_ge (getTime None) (getTime mn))"
proof -
  let ?mn = "new_Date5 (Some 2021) (Some 2) (Some 10) (Some 8) (Some 0)"
  let ?mx = "new_Date5 (Some 2021) (Some 2) (Some 20) (Some 18) (Some 0)"
  let ?cur = "new_Date5 (Some 2021) (Some 2) (Some 9) (Some 10) (Some 30)"
  let ?dp = "\<lparr> newValue = Some ?cur, minDatetime = Some ?mn, maxDatetime = Some ?mx,
               datetimeCreator = (\<lambda>d. d) \<rparr>"
  let ?v = "new_Date3 (Some 2021) (Some 2) (Some 10)"
  let ?stored = "new_Date5 (Some 2021) (Some 2) (Some 10) (Some 10) (Some 30)"
  let ?dp' = "\<lparr> newValue = Some None, minDatetime = Some ?mn, maxDatetime = Some ?mx,
                datetimeCreator = (\<lambda>d. d) \<rparr>"
  let ?v' = "new_Date3 (Some 2021) (Some 2) (Some 5)"
  have o: "js_le (getTime ?mn) (getTime ?mx)" by code_simp
  have a: "validDate ?v" "js_lt (getTime ?v) (getTime ?mn)" "?stored \<noteq> ?mn" by code_simp+
  have a': "validDate ?v'" "js_lt (getTime ?v') (getTime ?mn)"
      "\<not> js_ge (getTime None) (getTime ?mn)"
    by code_simp+
  have r: "(\<not> js_seq (getDate ?v) (getDate ?cur) \<or> \<not> js_seq (getMonth ?v) (getMonth ?cur) \<or>
            \<not> js_seq (getFullYear ?v) (getFullYear ?cur)) \<and>
           js_seq (getHours ?v) (Some 0) \<and> js_seq (getMinutes ?v) (Some 0) \<and>
           js_seq (getSeconds ?v) (Some 0)"
    by code_simp
  have sh: "setHours (copy_Date ?v) (getHours ?cur) (getMinutes ?cur) (getSeconds ?cur) (Some 0)
              = ?stored"
    by code_simp
  have rt: "restoreTimePart ?dp ?v = ?stored"
    using r sh by (simp add: restoreTimePart_def Let_def)
  have cr: "\<not> js_lt (getTime ?stored) (getTime ?mn)" "\<not> js_gt (getTime ?stored) (getTime ?mx)"
      "copy_Date ?stored = ?stored"
    by code_simp+
  have c1: "computedValue_set ?dp (Some ?v) = (?dp\<lparr>newValue := Some ?stored\<rparr>, Some ?stored)"
    using cr by (simp add: computedValue_set_def Let_def rt checkRange_def)
  have r': "(\<not> js_seq (getDate ?v') (getDate None) \<or> \<not> js_seq (getMonth ?v') (getMonth None) \<or>
            \<not> js_seq (getFullYear ?v') (getFullYear None)) \<and>
           js_seq (getHours ?v') (Some 0) \<and> js_seq (getMinutes ?v') (Some 0) \<and>
           js_seq (getSeconds ?v') (Some 0)"
    by code_simp
  have sh': "setHours (copy_Date ?v') (getHours None) (getMinutes None) (getSeconds None) (Some 0)
              = None"
    by (simp add: setHours_def getHours_def split: option.splits)
  have rt': "restoreTimePart ?dp' ?v' = None"
    using r' sh' by (simp add: restoreTimePart_def Let_def)
  have c2: "computedValue_set ?dp' (Some ?v') = (?dp'\<lparr>newValue := Some None\<rparr>, Some None)"
    by (simp add: computedValue_set_def Let_def rt' checkRange_def js_lt_def js_gt_def
        getTime_def copy_Date_def)
  show ?thesis
    unfolding Let_def by (intro conjI o a c1 a' c2)
qed

text \<open>
  Claim C10, amended. Let \<open>val\<close> be the assigned Date after \<open>restoreTimePart\<close>: a copy of
  it, with the time of day of the current value when the assigned Date is midnight of
  another day, or the result of \<open>datetimeCreator\<close> when there is no current value.
  Provided that \<open>val\<close> is not an Invalid Date, and that the bounds that are set are not
  Invalid Dates and are in order (\<open>minDatetime\<close> not later than \<open>maxDatetime\<close>), the value
  stored and emitted is \<open>val\<close> clamped into the interval: \<open>minDatetime\<close> when \<open>val\<close> is
  earlier than it, \<open>maxDatetime\<close> when \<open>val\<close> is later than it, \<open>val\<close> otherwise. So the
  stored value is a Date that is not earlier than \<open>minDatetime\<close> and not later than
  \<open>maxDatetime\<close>.
\<close>

theorem computedValue_set_clamped:
  assumes "validDate (restoreTimePart dp v)"
    and "\<forall>m. minDatetime dp = Some m \<longrightarrow> validDate m"
    and "\<forall>M. maxDatetime dp = Some M \<longrightarrow> validDate M"
    and "\<forall>m M. minDatetime dp = Some m \<and> maxDatetime dp = Some M \<longrightarrow>
           js_le (getTime m) (getTime M)"
  shows "\<exists>nv. computedValue_set dp (Some v) = (dp\<lparr>newValue := Some nv\<rparr>, Some nv) \<and>
           validDate nv \<and>
           (\<forall>m. minDatetime dp = Some m \<longrightarrow>
              js_ge (getTime nv) (getTime m) \<and>
              (js_lt (getTime (restoreTimePart dp v)) (getTime m) \<longrightarrow> nv = m)) \<and>
           (\<forall>M. maxDatetime dp = Some M \<longrightarrow>
              js_le (getTime nv) (getTime M) \<and>
              (js_gt (getTime (restoreTimePart dp v)) (getTime M) \<longrightarrow> nv = M)) \<and>
           ((\<forall>m. minDatetime dp = Some m \<longrightarrow> \<not> js_lt (getTime (restoreTimePart dp v)) (getTime m)) \<and>
            (\<forall>M. maxDatetime dp = Some M \<longrightarrow> \<not> js_gt (getTime (restoreTimePart dp v)) (getTime M))
              \<longrightarrow> nv = restoreTimePart dp v)"
proof -
  define val where "val = restoreTimePart dp v"
  define nv where "nv = checkRange dp val"
  note c = checkRange_clamps[OF assms[folded val_def], folded nv_def]
  have "copy_Date nv = nv" using c(1) by (rule copy_Date_valid)
  then have r: "computedValue_set dp (Some v) = (dp\<lparr>newValue := Some nv\<rparr>, Some nv)"
    by (simp add: computedValue_set_def Let_def nv_def val_def)
  show ?thesis
    unfolding val_def[symmetric]
    using r c by (intro exI[of _ nv]) blast
qed

text \<open>
  Bounds 2021-03-10 08:00 and 2021-03-20 18:00. With no current value, assigning
  2021-03-05 stores the minimum, assigning 2021-03-25 stores the maximum, and assigning
  2021-03-15 stores that date. With the current value 2021-03-09 10:30, assigning
  2021-03-10 00:00 gives \<open>val\<close> = 2021-03-10 10:30, which is within the bounds and is
  stored.
\<close>

theorem computedValue_set_clamped_witness:
  "(let mn = new_Date5 (Some 2021) (Some 2) (Some 10) (Some 8) (Some 0);
        mx = new_Date5 (Some 2021) (Some 2) (Some 20) (Some 18) (Some 0);
        dp = \<lparr> newValue = None, minDatetime = Some mn, maxDatetime = Some mx,
               datetimeCreator = (\<lambda>d. d) \<rparr>;
        early = new_Date3 (Some 2021) (Some 2) (Some 5);
        late = new_Date3 (Some 2021) (Some 2) (Some 25);
        inside = new_Date3 (Some 2021) (Some 2) (Some 15);
        dp' = dp \<lparr> newValue := Some (new_Date5 (Some 2021) (Some 2) (Some 9) (Some 10) (Some 30)) \<rparr>;
        v = new_Date3 (Some 2021) (Some 2) (Some 10);
        val = new_Date5 (Some 2021) (Some 2) (Some 10) (Some 10) (Some 30)
    in validDate mn \<and> validDate mx \<and> js_le (getTime mn) (getTime mx) \<and>
       validDate (restoreTimePart dp early) \<and>
       js_lt (getTime (restoreTimePart dp early)) (getTime mn) \<and>
       computedValue_set dp (Some early) = (dp\<lparr>newValue := Some mn\<rparr>, Some mn) \<and>
       validDate (restoreTimePart dp late) \<and>
       js_gt (getTime (restoreTimePart dp late)) (getTime mx) \<and>
       computedValue_set dp (Some late) = (dp\<lparr>newValue := Some mx\<rparr>, Some mx) \<and>
       validDate (restoreTimePart dp inside) \<and>
       computedValue_set dp (Some inside) = (dp\<lparr>newValue := Some inside\<rparr>, Some inside) \<and>
       restoreTimePart dp' v = val \<and> validDate val \<and>
       computedValue_set dp' (Some v) = (dp'\<lparr>newValue := Some val\<rparr>, Some val))"
proof -
  let ?mn = "new_Date5 (Some 2021) (Some 2) (Some 10) (Some 8) (Some 0)"
  let ?mx = "new_Date5 (Some 2021) (Some 2) (Some 20) (Some 18) (Some 0)"
  let ?dp = "\<lparr> newValue = None, minDatetime = Some ?mn, maxDatetime = Some ?mx,
               datetimeCreator = (\<lambda>d. d) \<rparr>"
  let ?early = "new_Date3 (Some 2021) (Some 2) (Some 5)"
  let ?late = "new_Date3 (Some 2021) (Some 2) (Some 25)"
  let ?inside = "new_Date3 (Some 2021) (Some 2) (Some 15)"
  let ?cur = "new_Date5 (Some 2021) (Some 2) (Some 9) (Some 10) (Some 30)"
  let ?dp' = "?dp \<lparr> newValue := Some ?cur \<rparr>"
  let ?v = "new_Date3 (Some 2021) (Some 2) (Some 10)"
  let ?val = "new_Date5 (Some 2021) (Some 2) (Some 10) (Some 10) (Some 30)"
  have b: "validDate ?mn" "validDate ?mx" "js_le (getTime ?mn) (getTime ?mx)" by code_simp+
  have bm: "\<forall>m. minDatetime ?dp = Some m \<longrightarrow> validDate m"
      "\<forall>M. maxDatetime ?dp = Some M \<longrightarrow> validDate M"
      "\<forall>m M. minDatetime ?dp = Some m \<and> maxDatetime ?dp = Some M \<longrightarrow>
         js_le (getTime m) (getTime M)"
    using b by simp_all
  have bm': "\<forall>m. minDatetime ?dp' = Some m \<longrightarrow> validDate m"
      "\<forall>M. maxDatetime ?dp' = Some M \<longrightarrow> validDate M"
      "\<forall>m M. minDatetime ?dp' = Some m \<and> maxDatetime ?dp' = Some M \<longrightarrow>
         js_le (getTime m) (getTime M)"
    using b by simp_all
  have rt: "restoreTimePart ?dp d = d" for d
    by (simp add: restoreTimePart_def)
  have e: "validDate ?early" "js_lt (getTime ?early) (getTime ?mn)" by code_simp+
  have l: "validDate ?late" "js_gt (getTime ?late) (getTime ?mx)" by code_simp+
  have i: "validDate ?inside" "\<not> js_lt (getTime ?inside) (getTime ?mn)"
      "\<not> js_gt (getTime ?inside) (getTime ?mx)"
    by code_simp+
  have c: "(\<not> js_seq (getDate ?v) (getDate ?cur) \<or> \<not> js_seq (getMonth ?v) (getMonth ?cur) \<or>
            \<not> js_seq (getFullYear ?v) (getFullYear ?cur)) \<and>
           js_seq (getHours ?v) (Some 0) \<and> js_seq (getMinutes ?v) (Some 0) \<and>
           js_seq (getSeconds ?v) (Some 0)"
    by code_simp
  have sh: "setHours (copy_Date ?v) (getHours ?cur) (getMinutes ?cur) (getSeconds ?cur) (Some 0)
              = ?val"
    by code_simp
  have rt': "restoreTimePart ?dp' ?v = ?val"
    using c sh by (simp add: restoreTimePart_def Let_def)
  have w: "validDate ?val" "\<not> js_lt (getTime ?val) (getTime ?mn)"
      "\<not> js_gt (getTime ?val) (getTime ?mx)"
    by code_simp+
  have r1: "computedValue_set ?dp (Some ?early) = (?dp\<lparr>newValue := Some ?mn\<rparr>, Some ?mn)"
    using computedValue_set_clamped[OF _ bm, of ?early] e unfolding rt by auto
  have r2: "computedValue_set ?dp (Some ?late) = (?dp\<lparr>newValue := Some ?mx\<rparr>, Some ?mx)"
    using computedValue_set_clamped[OF _ bm, of ?late] l unfolding rt by auto
  have r3: "computedValue_set ?dp (Some ?inside) = (?dp\<lparr>newValue := Some ?inside\<rparr>, Some ?inside)"
    using computedValue_set_clamped[OF _ bm, of ?inside] i unfolding rt by auto
  have r4: "computedValue_set ?dp' (Some ?v) = (?dp'\<lparr>newValue := Some ?val\<rparr>, Some ?val)"
    using computedValue_set_clamped[OF _ bm', of ?v] w unfolding rt' by auto
  show ?thesis
    unfolding Let_def rt rt'
    by (intro conjI b e l i(1) r1 r2 r3 w(1) refl) (use r4 in simp)
qed

section \<open>Keyboard navigation\<close>

text \<open>
  When the loop of \<open>changeFocus\<close> is entered with a \<open>nextDay\<close> that its body does not
  change, it never returns.
\<close>

lemma changeFocus_loop_stuck:
  assumes c: "case minDate p of None \<Rightarrow> True | Some m \<Rightarrow> js_gt (getTime nd) (getTime m)"
      "case maxDate p of None \<Rightarrow> True | Some m \<Rightarrow> js_lt (getTime nd) (getTime m)"
      "\<not> selectableDate p nd"
    and s: "setDate nd (js_add (getDate day) (Some (sgn inc))) = nd"
  shows "changeFocus_loop p day inc nd = None"
proof (rule ccontr)
  assume "changeFocus_loop p day inc nd \<noteq> None"
  then obtain y where y: "changeFocus_loop p day inc nd = Some y" by auto
  have "\<not> (p = p \<and> day = day \<and> inc = inc \<and> nd = nd)"
  proof (rule changeFocus_loop.raw_induct
      [where P = "\<lambda>p' day' inc' nd' y'. \<not> (p' = p \<and> day' = day \<and> inc' = inc \<and> nd' = nd)",
       OF _ y])
    fix f p' day' inc' nd' y'
    assume ih: "\<And>p' day' inc' nd' y'. f p' day' inc' nd' = Some y' \<Longrightarrow>
                  \<not> (p' = p \<and> day' = day \<and> inc' = inc \<and> nd' = nd)"
      and b: "(if (case minDate p' of None \<Rightarrow> True | Some m \<Rightarrow> js_gt (getTime nd') (getTime m)) \<and>
                  (case maxDate p' of None \<Rightarrow> True | Some m \<Rightarrow> js_lt (getTime nd') (getTime m)) \<and>
                  \<not> selectableDate p' nd'
               then f p' day' inc' (setDate nd' (js_add (getDate day') (Some (sgn inc'))))
               else Some nd') = Some y'"
    show "\<not> (p' = p \<and> day' = day \<and> inc' = inc \<and> nd' = nd)"
    proof
      assume "p' = p \<and> day' = day \<and> inc' = inc \<and> nd' = nd"
      then have e: "p' = p" "day' = day" "inc' = inc" "nd' = nd" by simp_all
      have "f p day inc nd = Some y'"
        using b c s unfolding e by simp
      from ih[OF this] show False by simp
    qed
  qed
  then show False by simp
qed

text \<open>
  The body of the loop sets the day of the month from the focused date, not from
  \<open>nextDay\<close>: applied to a \<open>nextDay\<close> that it produced and that stayed in the same
  month, it gives the same \<open>nextDay\<close> again.
\<close>

lemma TimeWithinDay_MakeDate:
  "TimeWithinDay (MakeDate d (TimeWithinDay t)) = TimeWithinDay t"
  by (simp add: TimeWithinDay_def MakeDate_def)

lemma setDate_again:
  assumes "setDate nd n = Some u"
    and "getFullYear (Some u) = getFullYear nd" "getMonth (Some u) = getMonth nd"
  shows "setDate (Some u) n = Some u"
proof -
  from assms(1) obtain t k where nd: "nd = Some t" and n: "n = Some k"
    by (auto simp: setDate_def split: option.splits)
  have u: "TimeClip (MakeDate (MakeDay (YearFromTime t) (MonthFromTime t) k) (TimeWithinDay t))
             = Some u"
    using assms(1) by (simp add: setDate_def nd n)
  then have e: "u = MakeDate (MakeDay (YearFromTime t) (MonthFromTime t) k) (TimeWithinDay t)"
    by (simp add: TimeClip_def split: if_splits)
  have ym: "YearFromTime u = YearFromTime t" "MonthFromTime u = MonthFromTime t"
    using assms(2,3) by (simp_all add: getFullYear_def getMonth_def nd)
  have tw: "TimeWithinDay u = TimeWithinDay t"
    unfolding e by (rule TimeWithinDay_MakeDate)
  show ?thesis
    using u by (simp add: setDate_def n ym tw)
qed

lemma changeFocus_stuck:
  assumes first: "setDate (copy_Date day) (js_add (getDate day) (Some inc)) = nd"
    and c0: "case minDate p of None \<Rightarrow> True | Some m \<Rightarrow> js_gt (getTime nd) (getTime m)"
      "case maxDate p of None \<Rightarrow> True | Some m \<Rightarrow> js_lt (getTime nd) (getTime m)"
      "\<not> selectableDate p nd"
    and second: "setDate nd (js_add (getDate day) (Some (sgn inc))) = Some u"
    and same: "getFullYear (Some u) = getFullYear nd" "getMonth (Some u) = getMonth nd"
    and c1: "case minDate p of None \<Rightarrow> True | Some m \<Rightarrow> js_gt (getTime (Some u)) (getTime m)"
      "case maxDate p of None \<Rightarrow> True | Some m \<Rightarrow> js_lt (getTime (Some u)) (getTime m)"
      "\<not> selectableDate p (Some u)"
  shows "changeFocus p day inc = None"
proof -
  have "setDate (Some u) (js_add (getDate day) (Some (sgn inc))) = Some u"
    using second same by (rule setDate_again)
  then have "changeFocus_loop p day inc (Some u) = None"
    using c1 by (intro changeFocus_loop_stuck)
  then have "changeFocus_loop p day inc nd = None"
    using c0 second by (subst changeFocus_loop.simps) simp
  then show ?thesis
    using first by (simp add: changeFocus_def Let_def)
qed

text \<open>
  Claim C2. The claim says that ArrowRight on a focused date whose next day is unselectable
  and whose day after is selectable reports the day after. The code does not: when the
  next day is in the month of the focused date, within the bounds and unselectable, the
  loop sets \<open>nextDay\<close> to the next day again and again, and \<open>manageKeydown\<close> never returns,
  whatever the day after is.
\<close>

theorem ArrowRight_never_returns:
  assumes "setDate (copy_Date day) (js_add (getDate day) (Some 1)) = Some u"
    and "getFullYear (Some u) = getFullYear day" "getMonth (Some u) = getMonth day"
    and "case minDate p of None \<Rightarrow> True | Some m \<Rightarrow> js_gt (getTime (Some u)) (getTime m)"
      "case maxDate p of None \<Rightarrow> True | Some m \<Rightarrow> js_lt (getTime (Some u)) (getTime m)"
      "\<not> selectableDate p (Some u)"
  shows "manageKeydown p ''ArrowRight'' day = None"
proof -
  from assms(1) obtain t where t: "day = Some t" "copy_Date day = Some t"
    by (auto simp: setDate_def copy_Date_def TimeClip_def split: option.splits if_splits)
  have "setDate (Some t) (js_add (getDate day) (Some 1)) = Some u"
    using assms(1) by (simp add: t(2))
  then have again: "setDate (Some u) (js_add (getDate day) (Some (sgn 1))) = Some u"
    using assms(2,3) unfolding t(1) by (intro setDate_again[where nd = "Some t"]) simp_all
  have "changeFocus p day 1 = None"
    using assms(1) assms(4-6) again
    by (intro changeFocus_stuck[where nd = "Some u" and u = u]) simp_all
  then show ?thesis
    by (simp add: manageKeydown_def)
qed

text \<open>
  The focused date is 2021-03-10, 2021-03-11 is the only unselectable date and there are
  no bounds: the next day is unselectable, the day after is selectable, and ArrowRight
  never returns.
\<close>

theorem ArrowRight_never_returns_witness:
  "(let D = new_Date3 (Some 2021) (Some 2) (Some 10);
        D1 = new_Date3 (Some 2021) (Some 2) (Some 11);
        D2 = new_Date3 (Some 2021) (Some 2) (Some 12);
        p = (rowProps 2 0 4 None) \<lparr> unselectableDates := Some [D1] \<rparr>
    in setDate (copy_Date D) (js_add (getDate D) (Some 1)) = D1 \<and>
       D1 = Some 1615420800000 \<and>
       minDate p = None \<and> maxDate p = None \<and>
       \<not> selectableDate p D1 \<and> selectableDate p D2 \<and>
       manageKeydown p ''ArrowRight'' D = None)"
proof -
  let ?D = "new_Date3 (Some 2021) (Some 2) (Some 10)"
  let ?D1 = "new_Date3 (Some 2021) (Some 2) (Some 11)"
  let ?D2 = "new_Date3 (Some 2021) (Some 2) (Some 12)"
  let ?p = "(rowProps 2 0 4 None) \<lparr> unselectableDates := Some [?D1] \<rparr>"
  have d1: "?D1 = Some 1615420800000" by code_simp
  have n: "setDate (copy_Date ?D) (js_add (getDate ?D) (Some 1)) = Some 1615420800000"
    by code_simp
  have m: "getFullYear (Some 1615420800000) = getFullYear ?D"
      "getMonth (Some 1615420800000) = getMonth ?D"
    by code_simp+
  have b: "minDate ?p = None" "maxDate ?p = None" by (simp_all add: rowProps_def)
  have u: "\<not> selectableDate ?p (Some 1615420800000)" by code_simp
  have s2: "selectableDate ?p ?D2" by code_simp
  have "manageKeydown ?p ''ArrowRight'' ?D = None"
    using n m u by (intro ArrowRight_never_returns[where u = 1615420800000]) (simp_all add: b)
  then show ?thesis
    unfolding Let_def using n b u s2 unfolding d1 by simp
qed

text \<open>
  Claim C3. The claim says that \<open>changeFocus\<close> terminates for every focused date,
  increment and constraints. The code does not: when the first candidate is within the
  bounds and unselectable, and so is the second candidate (the day of the month of the
  focused date moved by one, in the month of the first candidate) and it stays in that
  month, every later candidate is the second one and the loop never ends. With no
  selectable date before \<open>maxDate\<close> the candidate therefore never crosses the bound.
\<close>

theorem changeFocus_never_returns:
  assumes "setDate (copy_Date day) (js_add (getDate day) (Some inc)) = nd"
    and "case minDate p of None \<Rightarrow> True | Some m \<Rightarrow> js_gt (getTime nd) (getTime m)"
      "case maxDate p of None \<Rightarrow> True | Some m \<Rightarrow> js_lt (getTime nd) (getTime m)"
      "\<not> selectableDate p nd"
    and "setDate nd (js_add (getDate day) (Some (sgn inc))) = Some u"
    and "getFullYear (Some u) = getFullYear nd" "getMonth (Some u) = getMonth nd"
    and "case minDate p of None \<Rightarrow> True | Some m \<Rightarrow> js_gt (getTime (Some u)) (getTime m)"
      "case maxDate p of None \<Rightarrow> True | Some m \<Rightarrow> js_lt (getTime (Some u)) (getTime m)"
      "\<not> selectableDate p (Some u)"
  shows "changeFocus p day inc = None"
  using assms by (rule changeFocus_stuck)

text \<open>
  The focused date is 2021-03-10, \<open>maxDate\<close> is 2021-03-20 and the only selectable date
  is 2021-03-01: no date after the focused one is selectable. With the increment 1 the
  candidate stays 2021-03-11; with the increment 7 the first candidate is 2021-03-17 and
  every later one 2021-03-11. Neither call returns.
\<close>

theorem changeFocus_never_returns_witness:
  "(let D = new_Date3 (Some 2021) (Some 2) (Some 10);
        p = (rowProps 2 0 4 None)
              \<lparr> maxDate := Some (new_Date3 (Some 2021) (Some 2) (Some 20)),
                selectableDates := Some [new_Date3 (Some 2021) (Some 2) (Some 1)] \<rparr>
    in setDate (copy_Date D) (js_add (getDate D) (Some 1)) =
         new_Date3 (Some 2021) (Some 2) (Some 11) \<and>
       setDate (copy_Date D) (js_add (getDate D) (Some 7)) =
         new_Date3 (Some 2021) (Some 2) (Some 17) \<and>
       setDate (new_Date3 (Some 2021) (Some 2) (Some 17)) (js_add (getDate D) (Some (sgn 7))) =
         new_Date3 (Some 2021) (Some 2) (Some 11) \<and>
       \<not> selectableDate p (new_Date3 (Some 2021) (Some 2) (Some 11)) \<and>
       \<not> selectableDate p (new_Date3 (Some 2021) (Some 2) (Some 17)) \<and>
       changeFocus p D 1 = None \<and> changeFocus p D 7 = None)"
proof -
  let ?D = "new_Date3 (Some 2021) (Some 2) (Some 10)"
  let ?D1 = "new_Date3 (Some 2021) (Some 2) (Some 11)"
  let ?D7 = "new_Date3 (Some 2021) (Some 2) (Some 17)"
  let ?p = "(rowProps 2 0 4 None)
              \<lparr> maxDate := Some (new_Date3 (Some 2021) (Some 2) (Some 20)),
                selectableDates := Some [new_Date3 (Some 2021) (Some 2) (Some 1)] \<rparr>"
  have d1: "?D1 = Some 1615420800000" by code_simp
  have d7: "?D7 = Some 1615939200000" by code_simp
  have f1: "setDate (copy_Date ?D) (js_add (getDate ?D) (Some 1)) = Some 1615420800000"
    by code_simp
  have f7: "setDate (copy_Date ?D) (js_add (getDate ?D) (Some 7)) = Some 1615939200000"
    by code_simp
  have s1: "setDate (Some 1615420800000) (js_add (getDate ?D) (Some (sgn 1))) = Some 1615420800000"
    by code_simp
  have s7: "setDate (Some 1615939200000) (js_add (getDate ?D) (Some (sgn 7))) = Some 1615420800000"
    by code_simp
  have m: "getFullYear (Some 1615420800000) = getFullYear (Some 1615939200000)"
      "getMonth (Some 1615420800000) = getMonth (Some 1615939200000)"
    by code_simp+
  have b: "minDate ?p = None"
      "maxDate ?p = Some (new_Date3 (Some 2021) (Some 2) (Some 20))"
    by (simp_all add: rowProps_def)
  have lt: "js_lt (getTime (Some 1615420800000)) (getTime (new_Date3 (Some 2021) (Some 2) (Some 20)))"
      "js_lt (getTime (Some 1615939200000)) (getTime (new_Date3 (Some 2021) (Some 2) (Some 20)))"
    by code_simp+
  have u1: "\<not> selectableDate ?p (Some 1615420800000)" by code_simp
  have u7: "\<not> selectableDate ?p (Some 1615939200000)" by code_simp
  have r1: "changeFocus ?p ?D 1 = None"
    using f1 s1 u1 lt
    by (intro changeFocus_never_returns[where nd = "Some 1615420800000" and u = 1615420800000])
       (simp_all add: b)
  have r7: "changeFocus ?p ?D 7 = None"
    using f7 s7 u1 u7 lt m
    by (intro changeFocus_never_returns[where nd = "Some 1615939200000" and u = 1615420800000])
       (simp_all add: b)
  show ?thesis
    unfolding Let_def d1 d7 using f1 f7 s7 u1 u7 r1 r7 by simp
qed

end
